theory Spec2Isabelle
  imports
    Complex_Main
    "HOL-Library.Product_Lexorder"
    "HOL-Library.List_Lexorder"
    "HOL-Library.Char_ord"
begin

section \<open>Dates and calendar quarters\<close>

text \<open>
  A timestamp of the price panel is the triple (year, month, day); the lexicographic
  order of the triple is the chronological order, and it is also the order of the ISO
  strings \<^verbatim>\<open>YYYY-MM-DD\<close> that \<^verbatim>\<open>daily_prices.date\<close> holds.
  \<^verbatim>\<open>prices['date'].dt.year\<close> and \<^verbatim>\<open>prices['date'].dt.quarter\<close> of pandas are
  \<open>year_of\<close> and \<open>quarter_of\<close>: the quarter is \<^verbatim>\<open>(month - 1) // 3 + 1\<close>.
\<close>

type_synonym date = "nat \<times> nat \<times> nat"

type_synonym symbol = string

definition year_of :: "date \<Rightarrow> nat" where
  "year_of d = fst d"

definition month_of :: "date \<Rightarrow> nat" where
  "month_of d = fst (snd d)"

definition quarter_of :: "date \<Rightarrow> nat" where
  "quarter_of d = (month_of d - 1) div 3 + 1"

definition valid_date :: "date \<Rightarrow> bool" where
  "valid_date d \<longleftrightarrow> 1 \<le> month_of d \<and> month_of d \<le> 12"

text \<open>The spec's wording of the quarter: the ceiling of month / 3.\<close>

definition spec_quarter :: "date \<Rightarrow> nat" where
  "spec_quarter d = nat \<lceil>real (month_of d) / 3\<rceil>"

text \<open>(year, quarter) of a fundamental is not later than (year, quarter) of a date.\<close>

definition not_later :: "nat \<times> nat \<Rightarrow> nat \<times> nat \<Rightarrow> bool" where
  "not_later k q \<longleftrightarrow> fst k < fst q \<or> (fst k = fst q \<and> snd k \<le> snd q)"

section \<open>The store: \<^verbatim>\<open>symbols\<close>, \<^verbatim>\<open>daily_prices\<close> and \<^verbatim>\<open>fundamentals_quarterly\<close>\<close>

text \<open>
  A row of a table with its key columns as fields and the value columns as a function
  from the column name; \<open>None\<close> is SQL NULL (NaN once in a DataFrame). The type \<open>'v\<close>
  of the values is left open: the merge only moves values around.
\<close>

record 'v symbol_row =
  s_symbol :: symbol
  s_name :: "'v option"
  s_exchange :: "'v option"
  s_industry :: "'v option"
  s_industry_en :: "'v option"
  s_no_employees :: "'v option"
  s_foreign_percent :: "'v option"
  s_outstanding_shares :: "'v option"
  s_listed_date :: "'v option"
  s_updated_at :: "'v option"

record 'v price_row =
  p_symbol :: symbol
  p_date :: date
  p_vals :: "string \<Rightarrow> 'v option"

record 'v fund_row =
  f_symbol :: symbol
  f_year :: nat
  f_quarter :: nat
  f_vals :: "string \<Rightarrow> 'v option"

record 'v store =
  symbols_table :: "'v symbol_row list"
  daily_prices :: "'v price_row list"
  fundamentals_quarterly :: "'v fund_row list"

text \<open>
  \<^verbatim>\<open>if symbols:\<close> is false for \<^verbatim>\<open>None\<close> and for the empty list: both select all
  symbols. The same holds for an absent start or end date.
\<close>

definition symbol_selected :: "symbol list option \<Rightarrow> symbol \<Rightarrow> bool" where
  "symbol_selected symbols s =
     (case symbols of None \<Rightarrow> True | Some ss \<Rightarrow> ss = [] \<or> s \<in> set ss)"

definition date_selected :: "date option \<Rightarrow> date option \<Rightarrow> date \<Rightarrow> bool" where
  "date_selected start_date end_date d =
     ((case start_date of None \<Rightarrow> True | Some s \<Rightarrow> s \<le> d) \<and>
      (case end_date of None \<Rightarrow> True | Some e \<Rightarrow> d \<le> e))"

text \<open>
  \<^verbatim>\<open>get_price_panel\<close>: the rows of \<^verbatim>\<open>daily_prices\<close> that pass the filters,
  \<^verbatim>\<open>ORDER BY date, symbol\<close>. The projection to the requested columns is applied
  where the columns are read (\<open>project\<close>).
\<close>

definition get_price_panel ::
  "symbol list option \<Rightarrow> date option \<Rightarrow> date option \<Rightarrow> 'v store \<Rightarrow> 'v price_row list" where
  "get_price_panel symbols start_date end_date db =
     sort_key (\<lambda>r. (p_date r, p_symbol r))
       (filter (\<lambda>r. symbol_selected symbols (p_symbol r) \<and>
                     date_selected start_date end_date (p_date r))
          (daily_prices db))"

text \<open>
  \<^verbatim>\<open>get_fundamentals\<close>: the rows of \<^verbatim>\<open>fundamentals_quarterly\<close> of the selected
  symbols and years, \<^verbatim>\<open>ORDER BY symbol, year, quarter\<close>.
\<close>

definition get_fundamentals ::
  "symbol list option \<Rightarrow> nat list option \<Rightarrow> 'v store \<Rightarrow> 'v fund_row list" where
  "get_fundamentals symbols years db =
     sort_key (\<lambda>f. (f_symbol f, f_year f, f_quarter f))
       (filter (\<lambda>f. symbol_selected symbols (f_symbol f) \<and>
                     (case years of None \<Rightarrow> True | Some ys \<Rightarrow> ys = [] \<or> f_year f \<in> set ys))
          (fundamentals_quarterly db))"

section \<open>\<^verbatim>\<open>get_merged_data\<close>\<close>

text \<open>
  A row of the frame \<^verbatim>\<open>merged\<close>: the price row with its \<^verbatim>\<open>year\<close> and
  \<^verbatim>\<open>quarter\<close> columns and the fundamental columns joined to it.
\<close>

record 'v joined_row =
  j_symbol :: symbol
  j_date :: date
  j_year :: nat
  j_quarter :: nat
  j_prices :: "string \<Rightarrow> 'v option"
  j_funds :: "string \<Rightarrow> 'v option"

text \<open>
  A row of the result, indexed by (date, symbol), with the columns it really has, in
  order: the result of the early return for an empty fundamentals table has no
  fundamental column at all.
\<close>

record 'v merged_row =
  m_date :: date
  m_symbol :: symbol
  m_prices :: "(string \<times> 'v option) list"
  m_funds :: "(string \<times> 'v option) list"

definition project :: "string list \<Rightarrow> (string \<Rightarrow> 'v option) \<Rightarrow> (string \<times> 'v option) list" where
  "project cols vals = map (\<lambda>c. (c, vals c)) cols"

definition join_row :: "'v price_row \<Rightarrow> (string \<Rightarrow> 'v option) \<Rightarrow> 'v joined_row" where
  "join_row p fv =
     \<lparr>j_symbol = p_symbol p, j_date = p_date p,
      j_year = year_of (p_date p), j_quarter = quarter_of (p_date p),
      j_prices = p_vals p, j_funds = fv\<rparr>"

definition fund_matches :: "'v fund_row list \<Rightarrow> 'v price_row \<Rightarrow> 'v fund_row list" where
  "fund_matches funds p =
     filter (\<lambda>f. f_symbol f = p_symbol p \<and> f_year f = year_of (p_date p) \<and>
                   f_quarter f = quarter_of (p_date p)) funds"

text \<open>
  \<^verbatim>\<open>prices.merge(funds, on=['symbol', 'year', 'quarter'], how='left')\<close>: the left
  rows in their order, each once per matching right row, or once with nulls.
\<close>

definition left_merge :: "'v price_row list \<Rightarrow> 'v fund_row list \<Rightarrow> 'v joined_row list" where
  "left_merge prices funds =
     concat (map (\<lambda>p. case fund_matches funds p of
                         [] \<Rightarrow> [join_row p (\<lambda>c. None)]
                       | ms \<Rightarrow> map (\<lambda>f. join_row p (f_vals f)) ms) prices)"

text \<open>
  \<^verbatim>\<open>merged.groupby('symbol')[col].ffill()\<close>: the rows are visited in frame order;
  \<open>seen s\<close> is the last non-null value of the column seen in the group of symbol \<open>s\<close>.
\<close>

fun ffill_col ::
  "string \<Rightarrow> (symbol \<Rightarrow> 'v option) \<Rightarrow> 'v joined_row list \<Rightarrow> 'v joined_row list" where
  "ffill_col c seen [] = []"
| "ffill_col c seen (r # rs) =
     (case j_funds r c of
        Some v \<Rightarrow> r # ffill_col c (seen(j_symbol r := Some v)) rs
      | None \<Rightarrow> r\<lparr>j_funds := (j_funds r)(c := seen (j_symbol r))\<rparr> # ffill_col c seen rs)"

text \<open>The key of \<^verbatim>\<open>merged.sort_values(['symbol', 'date'])\<close>.\<close>

definition row_key :: "'v joined_row \<Rightarrow> symbol \<times> date" where
  "row_key j = (j_symbol j, j_date j)"

definition ffill_all :: "string list \<Rightarrow> 'v joined_row list \<Rightarrow> 'v joined_row list" where
  "ffill_all fund_cols merged = fold (\<lambda>c m. ffill_col c (\<lambda>s. None) m) fund_cols merged"

definition finish_row :: "string list \<Rightarrow> string list \<Rightarrow> 'v joined_row \<Rightarrow> 'v merged_row" where
  "finish_row price_cols fund_cols j =
     \<lparr>m_date = j_date j, m_symbol = j_symbol j,
      m_prices = project price_cols (j_prices j),
      m_funds = project fund_cols (j_funds j)\<rparr>"

definition prices_only :: "string list \<Rightarrow> 'v price_row \<Rightarrow> 'v merged_row" where
  "prices_only price_cols p =
     \<lparr>m_date = p_date p, m_symbol = p_symbol p,
      m_prices = project price_cols (p_vals p), m_funds = []\<rparr>"

text \<open>
  \<^verbatim>\<open>prices.empty\<close>: a DataFrame is empty when it has no row or no column. The
  columns of the panel are the requested price columns (date and symbol are its index),
  so a panel asked for with no price column is empty whatever rows it has, and
  \<^verbatim>\<open>return prices\<close> hands it back as it is: its rows, with no column.
\<close>

definition panel_empty :: "'v price_row list \<Rightarrow> string list \<Rightarrow> bool" where
  "panel_empty prices price_cols \<longleftrightarrow> prices = [] \<or> price_cols = []"

text \<open>
  The fundamentals frame always has its key columns, so \<^verbatim>\<open>funds.empty\<close> says that
  it has no row.
\<close>

definition get_merged_data ::
  "symbol list option \<Rightarrow> date option \<Rightarrow> date option \<Rightarrow> string list \<Rightarrow> string list \<Rightarrow>
   'v store \<Rightarrow> 'v merged_row list" where
  "get_merged_data symbols start_date end_date price_cols fund_cols db =
     (let prices = get_price_panel symbols start_date end_date db in
      if panel_empty prices price_cols then map (prices_only price_cols) prices
      else
        let funds = get_fundamentals symbols None db in
        if funds = [] then map (prices_only price_cols) prices
        else
          let merged = left_merge prices funds;
              merged = sort_key row_key merged;
              merged = ffill_all fund_cols merged
          in map (finish_row price_cols fund_cols) merged)"

subsection \<open>Where a merged value comes from\<close>

text \<open>
  \<open>sourced funds s d c v\<close>: some fundamental row of symbol \<open>s\<close> whose (year, quarter) is
  not later than the quarter of the date \<open>d\<close> holds the value \<open>v\<close> in column \<open>c\<close>.
  A joined row is \<open>backed\<close> when each of its non-null fundamental values is so sourced.
\<close>

definition sourced :: "'v fund_row list \<Rightarrow> symbol \<Rightarrow> date \<Rightarrow> string \<Rightarrow> 'v \<Rightarrow> bool" where
  "sourced funds s d c v \<longleftrightarrow>
     (\<exists>f\<in>set funds. f_symbol f = s \<and>
        not_later (f_year f, f_quarter f) (year_of d, quarter_of d) \<and> f_vals f c = Some v)"

definition backed :: "'v fund_row list \<Rightarrow> 'v joined_row \<Rightarrow> bool" where
  "backed funds j \<longleftrightarrow>
     (\<forall>c v. j_funds j c = Some v \<longrightarrow> sourced funds (j_symbol j) (j_date j) c v)"

subsection \<open>Example stores\<close>

definition close_only :: "int \<Rightarrow> string \<Rightarrow> int option" where
  "close_only x c = (if c = ''close'' then Some x else None)"

definition pe_only :: "int \<Rightarrow> string \<Rightarrow> int option" where
  "pe_only x c = (if c = ''pe'' then Some x else None)"

text \<open>One symbol with prices in Q1, Q2 and Q3 of 2024 and fundamentals for Q1 and Q3.\<close>

definition price_gap_q1 :: "int price_row" where
  "price_gap_q1 = \<lparr>p_symbol = ''AAA'', p_date = (2024, 2, 15), p_vals = close_only 10\<rparr>"

definition fund_gap_q1 :: "int fund_row" where
  "fund_gap_q1 = \<lparr>f_symbol = ''AAA'', f_year = 2024, f_quarter = 1, f_vals = pe_only 7\<rparr>"

definition db_gap :: "int store" where
  "db_gap =
     \<lparr>symbols_table = [],
      daily_prices =
        [price_gap_q1,
         \<lparr>p_symbol = ''AAA'', p_date = (2024, 5, 10), p_vals = close_only 11\<rparr>,
         \<lparr>p_symbol = ''AAA'', p_date = (2024, 8, 20), p_vals = close_only 12\<rparr>],
      fundamentals_quarterly =
        [fund_gap_q1,
         \<lparr>f_symbol = ''AAA'', f_year = 2024, f_quarter = 3, f_vals = pe_only 9\<rparr>]\<rparr>"

definition row_gap_q2 :: "int merged_row" where
  "row_gap_q2 =
     \<lparr>m_date = (2024, 5, 10), m_symbol = ''AAA'',
      m_prices = [(''close'', Some 11)], m_funds = [(''pe'', Some 7)]\<rparr>"

text \<open>Two symbols on two days; one of them has a fundamental row.\<close>

definition db_two :: "int store" where
  "db_two =
     \<lparr>symbols_table = [],
      daily_prices =
        [\<lparr>p_symbol = ''AAA'', p_date = (2024, 1, 2), p_vals = close_only 10\<rparr>,
         \<lparr>p_symbol = ''BBB'', p_date = (2024, 1, 2), p_vals = close_only 20\<rparr>,
         \<lparr>p_symbol = ''AAA'', p_date = (2024, 1, 3), p_vals = close_only 11\<rparr>,
         \<lparr>p_symbol = ''BBB'', p_date = (2024, 1, 3), p_vals = close_only 21\<rparr>],
      fundamentals_quarterly =
        [\<lparr>f_symbol = ''AAA'', f_year = 2024, f_quarter = 1, f_vals = pe_only 7\<rparr>]\<rparr>"

text \<open>The store without its annual rollup rows (quarter 5).\<close>

definition drop_annual :: "'v store \<Rightarrow> 'v store" where
  "drop_annual db =
     db\<lparr>fundamentals_quarterly := filter (\<lambda>f. f_quarter f \<noteq> 5) (fundamentals_quarterly db)\<rparr>"

text \<open>A store whose only fundamental row is an annual rollup.\<close>

definition db_annual :: "int store" where
  "db_annual =
     \<lparr>symbols_table = [],
      daily_prices =
        [\<lparr>p_symbol = ''AAA'', p_date = (2024, 2, 15), p_vals = close_only 10\<rparr>],
      fundamentals_quarterly =
        [\<lparr>f_symbol = ''AAA'', f_year = 2023, f_quarter = 5, f_vals = pe_only 7\<rparr>]\<rparr>"

text \<open>A store with quarterly rows and an annual rollup.\<close>

definition db_mixed :: "int store" where
  "db_mixed =
     \<lparr>symbols_table = [],
      daily_prices =
        [\<lparr>p_symbol = ''AAA'', p_date = (2024, 2, 15), p_vals = close_only 10\<rparr>,
         \<lparr>p_symbol = ''AAA'', p_date = (2024, 5, 10), p_vals = close_only 11\<rparr>],
      fundamentals_quarterly =
        [\<lparr>f_symbol = ''AAA'', f_year = 2023, f_quarter = 5, f_vals = pe_only 8\<rparr>,
         \<lparr>f_symbol = ''AAA'', f_year = 2024, f_quarter = 1, f_vals = pe_only 7\<rparr>]\<rparr>"

subsection \<open>Rows of a symbol in a quarter\<close>

definition in_quarter :: "symbol \<Rightarrow> nat \<Rightarrow> nat \<Rightarrow> 'v joined_row \<Rightarrow> bool" where
  "in_quarter s y k j \<longleftrightarrow>
     j_symbol j = s \<and> year_of (j_date j) = y \<and> quarter_of (j_date j) = k"

text \<open>
  Fundamentals for Q4 of 2023 and for Q1 and Q3 of 2024, where the row of Q1 holds no
  \<^verbatim>\<open>pe\<close>; prices in Q4, Q1 and Q2.
\<close>

definition db_null_q1 :: "int store" where
  "db_null_q1 =
     \<lparr>symbols_table = [],
      daily_prices =
        [\<lparr>p_symbol = ''AAA'', p_date = (2023, 11, 10), p_vals = close_only 9\<rparr>,
         \<lparr>p_symbol = ''AAA'', p_date = (2024, 2, 15), p_vals = close_only 10\<rparr>,
         \<lparr>p_symbol = ''AAA'', p_date = (2024, 5, 10), p_vals = close_only 11\<rparr>],
      fundamentals_quarterly =
        [\<lparr>f_symbol = ''AAA'', f_year = 2023, f_quarter = 4, f_vals = pe_only 5\<rparr>,
         \<lparr>f_symbol = ''AAA'', f_year = 2024, f_quarter = 1, f_vals = (\<lambda>c. None)\<rparr>,
         \<lparr>f_symbol = ''AAA'', f_year = 2024, f_quarter = 3, f_vals = pe_only 9\<rparr>]\<rparr>"

section \<open>The importers\<close>

text \<open>
  A value a DataFrame cell or a table column can hold: a number or a text; the cell
  itself is a \<open>val option\<close>, where \<open>None\<close> is None or NaN in the DataFrame and NULL in
  the table (the \<^verbatim>\<open>sqlite3\<close> module binds NaN as NULL). Floats are modelled by the
  rationals they stand for. SQLite stores a bound value as it is, apart from the
  column affinity turning numeric-looking text into a number, which is not modelled.
\<close>

datatype val = Num rat | Txt string

type_synonym cell = "val option"

text \<open>
  A cell of the \<^verbatim>\<open>date\<close> column, by what \<^verbatim>\<open>pd.to_datetime\<close> makes of it: a value
  with a timestamp (a datetime, or a string pandas parses), a missing value (\<^verbatim>\<open>NaT\<close>),
  or a string pandas cannot parse, for which \<^verbatim>\<open>to_datetime\<close> raises.
\<close>

datatype date_cell = Stamp date | NaT | BadDate string

record raw_row =
  r_date :: date_cell
  r_cells :: "string \<Rightarrow> cell"

text \<open>
  A DataFrame handed to an importer: its column names and its rows. \<open>r_date\<close> is read
  only when \<^verbatim>\<open>date\<close> is a column, \<open>r_cells r c\<close> only when \<open>c\<close> is a column.
\<close>

record raw_frame =
  columns :: "string list"
  rows :: "raw_row list"

text \<open>
  What an importer can raise: \<^verbatim>\<open>pd.to_datetime\<close> on an unparseable string, 
  \<^verbatim>\<open>astype(float)\<close> on a captured text that is no float literal, and SQLite on a
  NULL in the \<^verbatim>\<open>NOT NULL\<close> column \<^verbatim>\<open>date\<close>. An importer that raises never reaches
  \<^verbatim>\<open>conn.commit()\<close>, so the store is as it was: the result \<open>Inl e\<close> carries no store.
\<close>

datatype error = DateParseError | FloatParseError | IntegrityError

subsection \<open>The percentage in the \<^verbatim>\<open>change\<close> column\<close>

text \<open>
  \<^verbatim>\<open>str.extract(r'\(([-\d.]+)\s*%\)')\<close> on ASCII text: the first position where an
  opening parenthesis is followed by a non-empty run of digits, dots and minus signs,
  then white space, then \<^verbatim>\<open>%)\<close>. The three character classes are disjoint, so the
  greedy runs need no backtracking.
\<close>

definition is_digit :: "char \<Rightarrow> bool" where
  "is_digit ch \<longleftrightarrow> ch \<in> set ''0123456789''"

definition is_num_char :: "char \<Rightarrow> bool" where
  "is_num_char ch \<longleftrightarrow> is_digit ch \<or> ch = CHR ''-'' \<or> ch = CHR ''.''"

definition is_space :: "char \<Rightarrow> bool" where
  "is_space ch \<longleftrightarrow> ch = CHR '' '' \<or> (9 \<le> (of_char ch :: nat) \<and> (of_char ch :: nat) \<le> 13) \<or>
                   (28 \<le> (of_char ch :: nat) \<and> (of_char ch :: nat) \<le> 31)"

definition match_here :: "string \<Rightarrow> string option" where
  "match_here s =
     (let g = takeWhile is_num_char s;
          rest = dropWhile is_space (dropWhile is_num_char s)
      in if g \<noteq> [] \<and> take 2 rest = ''%)'' then Some g else None)"

fun regex_search :: "string \<Rightarrow> string option" where
  "regex_search [] = None"
| "regex_search (ch # s) =
     (if ch = CHR ''('' then
        (case match_here s of Some g \<Rightarrow> Some g | None \<Rightarrow> regex_search s)
      else regex_search s)"

text \<open>
  \<^verbatim>\<open>float(g)\<close> for a text \<open>g\<close> of digits, dots and minus signs: an optional minus
  sign, then digits with at most one dot and at least one digit.
\<close>

definition digit_val :: "char \<Rightarrow> nat" where
  "digit_val ch = of_char ch - 48"

definition digits_val :: "string \<Rightarrow> nat" where
  "digits_val ds = foldl (\<lambda>n ch. 10 * n + digit_val ch) 0 ds"

definition py_float_abs :: "string \<Rightarrow> rat option" where
  "py_float_abs body =
     (let ip = takeWhile is_digit body; rest = dropWhile is_digit body in
      case rest of
        [] \<Rightarrow> if ip = [] then None else Some (of_nat (digits_val ip))
      | ch # fp \<Rightarrow>
          if ch = CHR ''.'' \<and> list_all is_digit fp \<and> (ip \<noteq> [] \<or> fp \<noteq> [])
          then Some (of_nat (digits_val ip) + of_nat (digits_val fp) / 10 ^ length fp)
          else None)"

definition py_float :: "string \<Rightarrow> rat option" where
  "py_float g =
     (case g of
        [] \<Rightarrow> None
      | ch # body \<Rightarrow>
          if ch = CHR ''-'' then map_option uminus (py_float_abs body) else py_float_abs g)"

text \<open>
  \<^verbatim>\<open>df['change'].astype(str).str.extract(...)[0].astype(float)\<close> on one cell.
  \<^verbatim>\<open>astype(str)\<close> of a number or of a missing value has no parenthesis, so only a
  text can match; no match gives NaN.
\<close>

definition extract_pct :: "cell \<Rightarrow> error + cell" where
  "extract_pct x =
     (case x of
        Some (Txt s) \<Rightarrow>
          (case regex_search s of
             None \<Rightarrow> Inr None
           | Some g \<Rightarrow> (case py_float g of None \<Rightarrow> Inl FloatParseError
                                            | Some q \<Rightarrow> Inr (Some (Num q))))
      | _ \<Rightarrow> Inr None)"

subsection \<open>\<^verbatim>\<open>import_daily_prices\<close>\<close>

text \<open>\<^verbatim>\<open>INSERT OR IGNORE INTO symbols (symbol) VALUES (?)\<close>; \<open>now\<close> is CURRENT_TIMESTAMP.\<close>

definition bare_symbol :: "symbol \<Rightarrow> string \<Rightarrow> val symbol_row" where
  "bare_symbol symbol now =
     \<lparr>s_symbol = symbol, s_name = None, s_exchange = None, s_industry = None,
      s_industry_en = None, s_no_employees = None, s_foreign_percent = None,
      s_outstanding_shares = None, s_listed_date = None, s_updated_at = Some (Txt now)\<rparr>"

definition ensure_symbol :: "symbol \<Rightarrow> string \<Rightarrow> val store \<Rightarrow> val store" where
  "ensure_symbol symbol now db =
     (if symbol \<in> s_symbol ` set (symbols_table db) then db
      else db\<lparr>symbols_table := symbols_table db @ [bare_symbol symbol now]\<rparr>)"

text \<open>
  \<^verbatim>\<open>pd.to_datetime(df['date']).dt.strftime('%Y-%m-%d')\<close>: raises on the first
  string it cannot parse; a missing value stays missing.
\<close>

fun to_datetime :: "date_cell list \<Rightarrow> error + date option list" where
  "to_datetime [] = Inr []"
| "to_datetime (x # xs) =
     (case x of
        BadDate s \<Rightarrow> Inl DateParseError
      | NaT \<Rightarrow> (case to_datetime xs of Inl e \<Rightarrow> Inl e | Inr ds \<Rightarrow> Inr (None # ds))
      | Stamp d \<Rightarrow> (case to_datetime xs of Inl e \<Rightarrow> Inl e | Inr ds \<Rightarrow> Inr (Some d # ds)))"

fun extract_all :: "cell list \<Rightarrow> error + cell list" where
  "extract_all [] = Inr []"
| "extract_all (x # xs) =
     (case extract_pct x of
        Inl e \<Rightarrow> Inl e
      | Inr p \<Rightarrow> (case extract_all xs of Inl e \<Rightarrow> Inl e | Inr ps \<Rightarrow> Inr (p # ps)))"

text \<open>The columns of \<^verbatim>\<open>daily_prices\<close> the importer writes, besides the key.\<close>

definition value_cols :: "string list" where
  "value_cols = [''open'', ''high'', ''low'', ''close'', ''adj_close'', ''volume'', ''value'',
                 ''deal_volume'', ''deal_value'', ''change_pct'']"

text \<open>
  The columns of the frame after \<^verbatim>\<open>df['symbol'] = symbol\<close> and, when there is a
  \<^verbatim>\<open>change\<close> column, \<^verbatim>\<open>df['change_pct'] = ...\<close>; \<open>available\<close> tells whether a column
  of the table is among \<^verbatim>\<open>available_cols\<close>.
\<close>

definition available :: "raw_frame \<Rightarrow> string \<Rightarrow> bool" where
  "available df c \<longleftrightarrow>
     c \<in> set (columns df) \<or> c = ''symbol'' \<or>
     (c = ''change_pct'' \<and> ''change'' \<in> set (columns df))"

text \<open>
  The row of \<^verbatim>\<open>daily_prices\<close> that \<^verbatim>\<open>INSERT OR REPLACE\<close> writes for a frame row with
  the date \<open>d\<close> and the extracted percentage \<open>pct\<close>: the available columns as they are
  in the frame, every other column NULL.
\<close>

definition price_record :: "raw_frame \<Rightarrow> symbol \<Rightarrow> date \<Rightarrow> cell option \<Rightarrow> raw_row \<Rightarrow> val price_row" where
  "price_record df symbol d pct r =
     \<lparr>p_symbol = symbol, p_date = d,
      p_vals = (\<lambda>c. if c \<in> set value_cols \<and> available df c then
                       (case pct of
                          Some p \<Rightarrow> if c = ''change_pct'' then p else r_cells r c
                        | None \<Rightarrow> r_cells r c)
                     else None)\<rparr>"

definition price_key :: "'v price_row \<Rightarrow> symbol \<times> date" where
  "price_key x = (p_symbol x, p_date x)"

text \<open>\<^verbatim>\<open>INSERT OR REPLACE\<close>: the row with the same key is deleted, the new row inserted.\<close>

definition upsert_price :: "'v price_row \<Rightarrow> 'v price_row list \<Rightarrow> 'v price_row list" where
  "upsert_price x t = filter (\<lambda>y. price_key y \<noteq> price_key x) t @ [x]"

text \<open>
  \<^verbatim>\<open>conn.executemany\<close>: the rows in order. A row whose date is missing, or any row of
  a frame without a \<^verbatim>\<open>date\<close> column, violates \<^verbatim>\<open>NOT NULL\<close> and raises.
\<close>

fun executemany ::
  "raw_frame \<Rightarrow> symbol \<Rightarrow> (date option \<times> cell option \<times> raw_row) list \<Rightarrow> val price_row list \<Rightarrow>
   error + val price_row list" where
  "executemany df symbol [] t = Inr t"
| "executemany df symbol ((dt, pct, r) # xs) t =
     (case dt of
        None \<Rightarrow> Inl IntegrityError
      | Some d \<Rightarrow> executemany df symbol xs (upsert_price (price_record df symbol d pct r) t))"

definition import_daily_prices ::
  "raw_frame \<Rightarrow> symbol \<Rightarrow> string \<Rightarrow> val store \<Rightarrow> error + (val store \<times> nat)" where
  "import_daily_prices df symbol now db =
     (let db1 = ensure_symbol symbol now db;
          n = length (rows df) in
      case (if ''date'' \<in> set (columns df) then to_datetime (map r_date (rows df))
            else Inr (replicate n None)) of
        Inl e \<Rightarrow> Inl e
      | Inr dates \<Rightarrow>
         (case (if ''change'' \<in> set (columns df)
                then map_sum id (map Some) (extract_all (map (\<lambda>r. r_cells r ''change'') (rows df)))
                else Inr (replicate n None)) of
            Inl e \<Rightarrow> Inl e
          | Inr pcts \<Rightarrow>
             (case executemany df symbol (zip dates (zip pcts (rows df))) (daily_prices db1) of
                Inl e \<Rightarrow> Inl e
              | Inr t \<Rightarrow> Inr (db1\<lparr>daily_prices := t\<rparr>, n))))"

text \<open>
  The store after a call of the importer: what the importer committed, or the store as
  it was when the importer raised.
\<close>

definition store_after :: "raw_frame \<Rightarrow> symbol \<Rightarrow> string \<Rightarrow> val store \<Rightarrow> val store" where
  "store_after df symbol now db =
     (case import_daily_prices df symbol now db of Inl e \<Rightarrow> db | Inr (db', n) \<Rightarrow> db')"

subsection \<open>The batch, row by row\<close>

text \<open>What \<open>to_datetime\<close> and \<open>extract_pct\<close> make of one cell when they do not raise.\<close>

definition stamp_of :: "date_cell \<Rightarrow> date option" where
  "stamp_of x = (case x of Stamp d \<Rightarrow> Some d | _ \<Rightarrow> None)"

definition is_bad :: "date_cell \<Rightarrow> bool" where
  "is_bad x = (case x of BadDate s \<Rightarrow> True | _ \<Rightarrow> False)"

definition is_float_error :: "cell \<Rightarrow> bool" where
  "is_float_error x \<longleftrightarrow> extract_pct x = Inl FloatParseError"

definition pct_of :: "cell \<Rightarrow> cell" where
  "pct_of x = (case extract_pct x of Inr p \<Rightarrow> p | Inl e \<Rightarrow> None)"

definition batch_date :: "raw_frame \<Rightarrow> raw_row \<Rightarrow> date option" where
  "batch_date df r = (if ''date'' \<in> set (columns df) then stamp_of (r_date r) else None)"

definition batch_pct :: "raw_frame \<Rightarrow> raw_row \<Rightarrow> cell option" where
  "batch_pct df r =
     (if ''change'' \<in> set (columns df) then Some (pct_of (r_cells r ''change'')) else None)"

fun recs_of ::
  "raw_frame \<Rightarrow> symbol \<Rightarrow> (date option \<times> cell option \<times> raw_row) list \<Rightarrow> val price_row list" where
  "recs_of df symbol [] = []"
| "recs_of df symbol ((dt, pct, r) # xs) =
     (case dt of
        None \<Rightarrow> recs_of df symbol xs
      | Some d \<Rightarrow> price_record df symbol d pct r # recs_of df symbol xs)"

definition batch_records :: "raw_frame \<Rightarrow> symbol \<Rightarrow> val price_row list" where
  "batch_records df symbol =
     recs_of df symbol (map (\<lambda>r. (batch_date df r, batch_pct df r, r)) (rows df))"

text \<open>The frame passes the parsers and every row has a date.\<close>

definition batch_ok :: "raw_frame \<Rightarrow> bool" where
  "batch_ok df \<longleftrightarrow>
     (''date'' \<in> set (columns df) \<longrightarrow> (\<forall>r\<in>set (rows df). \<not> is_bad (r_date r))) \<and>
     (''change'' \<in> set (columns df) \<longrightarrow>
        (\<forall>r\<in>set (rows df). \<not> is_float_error (r_cells r ''change''))) \<and>
     (\<forall>r\<in>set (rows df). batch_date df r \<noteq> None)"

subsection \<open>Example batches\<close>

definition day_row :: "nat \<Rightarrow> raw_row" where
  "day_row k =
     \<lparr>r_date = Stamp (2024, 1, k),
      r_cells = (\<lambda>c. if c = ''close'' then Some (Num (of_nat (100 + k))) else None)\<rparr>"

definition bad_row :: "string \<Rightarrow> raw_row" where
  "bad_row s = \<lparr>r_date = BadDate s, r_cells = (\<lambda>c. None)\<rparr>"

definition nat_row :: raw_row where
  "nat_row = \<lparr>r_date = NaT, r_cells = (\<lambda>c. None)\<rparr>"

definition eight_days :: "nat list" where
  "eight_days = [2, 3, 4, 5, 8, 9, 10, 11]"

definition df_eight :: raw_frame where
  "df_eight = \<lparr>columns = [''date'', ''close''], rows = map day_row eight_days\<rparr>"

text \<open>Ten rows, two of them with a date text that cannot be parsed.\<close>

definition df_ten_bad :: raw_frame where
  "df_ten_bad =
     \<lparr>columns = [''date'', ''close''],
      rows = map day_row eight_days @ [bad_row ''n/a'', bad_row ''31-31-2024'']\<rparr>"

text \<open>Ten rows, two of them with no date.\<close>

definition df_ten_nat :: raw_frame where
  "df_ten_nat =
     \<lparr>columns = [''date'', ''close''],
      rows = map day_row eight_days @ [nat_row, nat_row]\<rparr>"

definition db_empty :: "val store" where
  "db_empty = \<lparr>symbols_table = [], daily_prices = [], fundamentals_quarterly = []\<rparr>"

text \<open>The store after the eight good rows are imported into the empty store.\<close>

definition db_eight :: "val store" where
  "db_eight =
     \<lparr>symbols_table = [bare_symbol ''AAA'' ''2024-01-12 00:00:00''],
      daily_prices =
        map (\<lambda>k. price_record df_eight ''AAA'' (2024, 1, k) None (day_row k)) eight_days,
      fundamentals_quarterly = []\<rparr>"




subsection \<open>\<^verbatim>\<open>import_overview\<close>\<close>

text \<open>\<^verbatim>\<open>df.empty\<close>: no column or no row.\<close>

definition frame_empty :: "raw_frame \<Rightarrow> bool" where
  "frame_empty df \<longleftrightarrow> columns df = [] \<or> rows df = []"

text \<open>
  \<^verbatim>\<open>row.get(k)\<close> on \<^verbatim>\<open>df.iloc[0].to_dict()\<close>: the cell when \<open>k\<close> is a column of
  the frame, \<^verbatim>\<open>None\<close> otherwise.
\<close>

definition row_get :: "raw_frame \<Rightarrow> raw_row \<Rightarrow> string \<Rightarrow> cell" where
  "row_get df r k = (if k \<in> set (columns df) then r_cells r k else None)"

text \<open>
  The row that \<^verbatim>\<open>INSERT OR REPLACE INTO symbols (symbol, name, exchange, industry,
  industry_en, no_employees, foreign_percent, outstanding_shares)\<close> inserts:
  \<^verbatim>\<open>listed_date\<close> is not in the column list and gets NULL, \<^verbatim>\<open>updated_at\<close> its
  default CURRENT_TIMESTAMP.
\<close>

definition overview_row :: "raw_frame \<Rightarrow> raw_row \<Rightarrow> symbol \<Rightarrow> string \<Rightarrow> val symbol_row" where
  "overview_row df r symbol now =
     \<lparr>s_symbol = symbol,
      s_name = row_get df r ''shortName'',
      s_exchange = row_get df r ''exchange'',
      s_industry = row_get df r ''industry'',
      s_industry_en = row_get df r ''industryEn'',
      s_no_employees = row_get df r ''noEmployees'',
      s_foreign_percent = row_get df r ''foreignPercent'',
      s_outstanding_shares = row_get df r ''outstandingShare'',
      s_listed_date = None,
      s_updated_at = Some (Txt now)\<rparr>"

text \<open>\<^verbatim>\<open>INSERT OR REPLACE\<close> on \<^verbatim>\<open>symbols\<close>: the row of the symbol is deleted, the new row inserted.\<close>

definition replace_symbol :: "'v symbol_row \<Rightarrow> 'v symbol_row list \<Rightarrow> 'v symbol_row list" where
  "replace_symbol x t = filter (\<lambda>y. s_symbol y \<noteq> s_symbol x) t @ [x]"

definition import_overview :: "raw_frame \<Rightarrow> symbol \<Rightarrow> string \<Rightarrow> val store \<Rightarrow> val store \<times> nat" where
  "import_overview df symbol now db =
     (if frame_empty df then (db, 0)
      else case rows df of
             [] \<Rightarrow> (db, 0)
           | r # rs \<Rightarrow>
               (db\<lparr>symbols_table := replace_symbol (overview_row df r symbol now) (symbols_table db)\<rparr>,
                1))"

text \<open>
  A symbol with a listing date and an exchange, and an overview frame that provides
  the short name only.
\<close>

definition db_listed :: "val store" where
  "db_listed =
     \<lparr>symbols_table =
        [\<lparr>s_symbol = ''AAA'', s_name = Some (Txt ''Old name''), s_exchange = Some (Txt ''HOSE''),
          s_industry = None, s_industry_en = None, s_no_employees = None,
          s_foreign_percent = None, s_outstanding_shares = None,
          s_listed_date = Some (Txt ''2010-01-04''),
          s_updated_at = Some (Txt ''2024-01-01 00:00:00'')\<rparr>],
      daily_prices = [], fundamentals_quarterly = []\<rparr>"

definition df_overview :: raw_frame where
  "df_overview =
     \<lparr>columns = [''shortName''],
      rows = [\<lparr>r_date = NaT,
               r_cells = (\<lambda>c. if c = ''shortName'' then Some (Txt ''New name'') else None)\<rparr>]\<rparr>"

section \<open>\<^verbatim>\<open>rank_cross_sectional\<close>\<close>

text \<open>
  A DataFrame indexed by (date, symbol), column by column, as pandas holds it: the
  index, and the named columns in their order, each a list of cells as long as the
  index. A cell is a number or missing (\<open>None\<close>, NaN); floats are modelled by the
  rationals they stand for.
\<close>

record frame =
  df_index :: "(date \<times> symbol) list"
  df_cols :: "(string \<times> rat option list) list"

text \<open>
  The non-null values of the column in the rows of the date \<open>d\<close>: the group of
  \<^verbatim>\<open>groupby(level='date')\<close> as \<^verbatim>\<open>rank\<close> sees it with \<^verbatim>\<open>na_option='keep'\<close>.
\<close>

definition group_values :: "date list \<Rightarrow> rat option list \<Rightarrow> date \<Rightarrow> rat list" where
  "group_values dates vals d =
     concat (map (\<lambda>(d', x). case x of Some v \<Rightarrow> (if d' = d then [v] else []) | None \<Rightarrow> [])
               (zip dates vals))"

text \<open>
  \<^verbatim>\<open>rank(method='average')\<close>: the values of the group are sorted, a value takes the
  positions 1, 2, ... at which it stands in the sorted order, and its rank is the mean
  of these positions.
\<close>

definition positions :: "rat \<Rightarrow> rat list \<Rightarrow> nat list" where
  "positions v xs = map Suc (filter (\<lambda>i. sort xs ! i = v) [0..<length xs])"

definition average_rank :: "rat \<Rightarrow> rat list \<Rightarrow> rat" where
  "average_rank v xs = of_nat (sum_list (positions v xs)) / of_nat (length (positions v xs))"

text \<open>
  \<^verbatim>\<open>groupby(level='date')[col].rank(pct=True)\<close>: the average rank divided by the
  number of non-null values of the group; a missing value has no rank.
\<close>

definition rank_pct :: "date list \<Rightarrow> rat option list \<Rightarrow> rat option list" where
  "rank_pct dates vals =
     map (\<lambda>(d, x). case x of
                      None \<Rightarrow> None
                    | Some v \<Rightarrow> Some (average_rank v (group_values dates vals d) /
                                      of_nat (length (group_values dates vals d))))
         (zip dates vals)"

text \<open>\<^verbatim>\<open>result[name] = values\<close>: an existing column is overwritten in place, a new one appended.\<close>

definition set_col :: "frame \<Rightarrow> string \<Rightarrow> rat option list \<Rightarrow> frame" where
  "set_col df c new =
     df\<lparr>df_cols :=
          (if c \<in> fst ` set (df_cols df)
           then map (\<lambda>(k, old). if k = c then (k, new) else (k, old)) (df_cols df)
           else df_cols df @ [(c, new)])\<rparr>"

definition rank_cross_sectional :: "frame \<Rightarrow> string list \<Rightarrow> frame" where
  "rank_cross_sectional df cols =
     fold (\<lambda>col result.
             case map_of (df_cols result) col of
               None \<Rightarrow> result
             | Some vals \<Rightarrow>
                 set_col result (col @ ''_rank'') (rank_pct (map fst (df_index result)) vals))
          cols df"

text \<open>The number of values of a group below a value, and equal to it.\<close>

definition count_less :: "rat \<Rightarrow> rat list \<Rightarrow> nat" where
  "count_less v xs = length (filter (\<lambda>x. x < v) xs)"

definition count_eq :: "rat \<Rightarrow> rat list \<Rightarrow> nat" where
  "count_eq v xs = length (filter (\<lambda>x. x = v) xs)"

definition group_size :: "date list \<Rightarrow> date \<Rightarrow> nat" where
  "group_size dates d = length (filter (\<lambda>d'. d' = d) dates)"

subsection \<open>Example frames\<close>

text \<open>Three symbols on one day, one symbol alone on the next; one tie, one missing value.\<close>

definition df_rank :: frame where
  "df_rank =
     \<lparr>df_index = [((2024, 1, 2), ''AAA''), ((2024, 1, 2), ''BBB''), ((2024, 1, 2), ''CCC''),
                  ((2024, 1, 2), ''DDD''), ((2024, 1, 3), ''AAA'')],
      df_cols = [(''pe'', [Some 5, Some 3, Some 5, None, Some 8])]\<rparr>"

text \<open>A frame that already has a column named \<^verbatim>\<open>pe_rank\<close>.\<close>

definition df_clash :: frame where
  "df_clash =
     \<lparr>df_index = [((2024, 1, 2), ''AAA''), ((2024, 1, 2), ''BBB'')],
      df_cols = [(''pe'', [Some 1, Some 2]), (''pe_rank'', [Some 7, Some 7])]\<rparr>"

section \<open>\<^verbatim>\<open>compute_volatility\<close>\<close>

text \<open>
  The price matrix has the dates as its index and one column of prices per symbol,
  \<open>None\<close> where the matrix has NaN. Its columns are labelled by the symbol, or, with
  a two-level column index, by (field, symbol). The arithmetic is that of the real
  numbers: the rounding of floating point is not modelled, and a return over a zero
  price, which floating point makes infinite or NaN, has no value here.
\<close>

datatype column_index =
    Plain "(symbol \<times> real option list) list"
  | Multi "((string \<times> symbol) \<times> real option list) list"

record 'd price_matrix =
  mx_index :: "'d list"
  mx_columns :: column_index

text \<open>The frame that comes back: the index of the matrix and one column per window.\<close>

record 'd vol_frame =
  vf_index :: "'d list"
  vf_columns :: "(nat \<times> real option list) list"

text \<open>
  What the function can raise: \<^verbatim>\<open>KeyError\<close> for a field that the two-level column
  index does not have, \<^verbatim>\<open>ValueError\<close> for assigning a frame with no column as a
  column, \<^verbatim>\<open>TypeError\<close> for assigning a series whose index cannot be aligned
  with the index of the frame.
\<close>

datatype frame_error = KeyError | ValueError | TypeError

subsection \<open>One column of prices\<close>

text \<open>\<^verbatim>\<open>ffill\<close>: a missing price takes the last price before it.\<close>

fun pad :: "'a option \<Rightarrow> 'a option list \<Rightarrow> 'a option list" where
  "pad prev [] = []"
| "pad prev (x # xs) =
     (case x of None \<Rightarrow> prev # pad prev xs | Some v \<Rightarrow> Some v # pad (Some v) xs)"

definition ratio :: "real option \<Rightarrow> real option \<Rightarrow> real option" where
  "ratio prev cur =
     (case prev of
        None \<Rightarrow> None
      | Some a \<Rightarrow> (case cur of
                     None \<Rightarrow> None
                   | Some b \<Rightarrow> if a = 0 then None else Some (b / a - 1)))"

text \<open>
  \<^verbatim>\<open>prices.pct_change()\<close>: the first row has no return. Whether missing prices are
  padded first is the default \<^verbatim>\<open>fill_method\<close> of the pandas version (\<^verbatim>\<open>'pad'\<close>
  before 3.0, none from 3.0): \<open>fill\<close> stands for it.
\<close>

definition pct_change :: "bool \<Rightarrow> real option list \<Rightarrow> real option list" where
  "pct_change fill ps =
     (let qs = (if fill then pad None ps else ps) in
      case qs of [] \<Rightarrow> [] | q # rest \<Rightarrow> None # map (\<lambda>(a, b). ratio a b) (zip qs rest))"

definition mean :: "real list \<Rightarrow> real" where
  "mean xs = sum_list xs / real (length xs)"

text \<open>The sample standard deviation (\<^verbatim>\<open>ddof=1\<close>).\<close>

definition sample_std :: "real list \<Rightarrow> real" where
  "sample_std xs = sqrt (sum_list (map (\<lambda>x. (x - mean xs)\<^sup>2) xs) / (real (length xs) - 1))"

text \<open>The \<open>w\<close> entries that end at row \<open>t\<close>.\<close>

definition window :: "nat \<Rightarrow> 'a list \<Rightarrow> nat \<Rightarrow> 'a list" where
  "window w xs t = take w (drop (Suc t - w) xs)"

text \<open>
  \<^verbatim>\<open>returns.rolling(w).std()\<close>, with \<^verbatim>\<open>min_periods\<close> at its default \<open>w\<close>: a row has
  a value when the window is full, each of its \<open>w\<close> entries is present, and \<open>w\<close> is at
  least 2.
\<close>

definition rolling_std :: "nat \<Rightarrow> real option list \<Rightarrow> real option list" where
  "rolling_std w rs =
     map (\<lambda>t. if Suc t < w then None
               else case those (window w rs t) of
                      None \<Rightarrow> None
                    | Some xs \<Rightarrow> if length xs < 2 then None else Some (sample_std xs))
         [0..<length rs]"

text \<open>\<^verbatim>\<open>returns.rolling(w).std() * (252 ** 0.5)\<close>.\<close>

definition volatility :: "bool \<Rightarrow> nat \<Rightarrow> real option list \<Rightarrow> real option list" where
  "volatility fill w ps =
     map (map_option (\<lambda>s. s * sqrt 252)) (rolling_std w (pct_change fill ps))"

subsection \<open>The matrix\<close>

text \<open>
  \<^verbatim>\<open>prices[column]\<close> on a two-level column index: the columns of that field,
  labelled by the symbol.
\<close>

definition select_field ::
  "string \<Rightarrow> ((string \<times> symbol) \<times> real option list) list \<Rightarrow>
   frame_error + (symbol \<times> real option list) list" where
  "select_field column cs =
     (case filter (\<lambda>c. fst (fst c) = column) cs of
        [] \<Rightarrow> Inl KeyError
      | sel \<Rightarrow> Inr (map (\<lambda>c. (snd (fst c), snd c)) sel))"

text \<open>
  \<^verbatim>\<open>if isinstance(prices.columns, pd.MultiIndex): prices = prices[column]\<close>.
\<close>

definition symbol_columns ::
  "string \<Rightarrow> column_index \<Rightarrow> frame_error + (symbol \<times> real option list) list" where
  "symbol_columns column ci =
     (case ci of Plain cs \<Rightarrow> Inr cs | Multi cs \<Rightarrow> select_field column cs)"

text \<open>
  \<^verbatim>\<open>vol.stack()\<close>: the frame as one series, row by row and within a row column by
  column, labelled by (date, symbol); the entries without a value are left out.
\<close>

fun stack ::
  "'d list \<Rightarrow> (symbol \<times> 'a option list) list \<Rightarrow> (('d \<times> symbol) \<times> 'a) list" where
  "stack [] cols = []"
| "stack (d # ds) cols =
     concat (map (\<lambda>(s, xs). case xs of Some v # _ \<Rightarrow> [((d, s), v)] | _ \<Rightarrow> []) cols) @
     stack ds (map (\<lambda>(s, xs). (s, tl xs)) cols)"

text \<open>
  A label of an index: the date of a row of the frame, or the (date, symbol) of an
  entry of a stacked series. The two are never equal.
\<close>

datatype 'd label = Row 'd | Stacked 'd symbol

text \<open>
  \<^verbatim>\<open>result[name] = vol.stack()\<close>. Assigning a series as a column aligns it with the
  index of the frame: each row takes the entry of the series that has the label of the
  row, and NaN when there is none. The series is labelled by (date, symbol), the frame
  by date, so no row finds an entry. When a label of the frame is not found in a
  multi-level index, pandas builds a multi-level index from the labels of the frame;
  for labels that are not tuples, as those of the \<^verbatim>\<open>DatetimeIndex\<close> of
  \<^verbatim>\<open>get_price_matrix\<close>, this fails and the assignment raises \<^verbatim>\<open>TypeError\<close>
  (incompatible index of inserted column with frame index). \<open>strict\<close> stands for
  that; without it the rows not found are NaN. A frame with no row has nothing to
  align.
\<close>

definition assign_stacked ::
  "bool \<Rightarrow> 'd list \<Rightarrow> (('d \<times> symbol) \<times> real) list \<Rightarrow> frame_error + real option list" where
  "assign_stacked strict idx series =
     (let found = map (\<lambda>d. map_of (map (\<lambda>((d', s), x). (Stacked d' s, x)) series) (Row d)) idx in
      if strict \<and> None \<in> set found then Inl TypeError else Inr found)"

text \<open>
  The column of one window:
  \<^verbatim>\<open>vol = returns.rolling(w).std() * (252 ** 0.5)\<close>, then
  \<^verbatim>\<open>vol.stack() if len(prices.columns) > 1 else vol\<close>. With one column \<^verbatim>\<open>vol\<close> is
  a frame of one column on the index of the result and is assigned as that column;
  a frame with no column cannot be assigned.
\<close>

definition vol_column ::
  "bool \<Rightarrow> bool \<Rightarrow> 'd list \<Rightarrow> (symbol \<times> real option list) list \<Rightarrow> nat \<Rightarrow>
   frame_error + real option list" where
  "vol_column fill strict idx cols w =
     (let vol = map (\<lambda>(s, ps). (s, volatility fill w ps)) cols in
      if 1 < length cols then assign_stacked strict idx (stack idx vol)
      else case vol of [] \<Rightarrow> Inl ValueError | (s, v) # _ \<Rightarrow> Inr v)"

text \<open>
  \<^verbatim>\<open>result[name] = values\<close>: a column of that name is overwritten in place, a new
  one is appended. The column \<^verbatim>\<open>vol_{w}d\<close> is keyed by the window \<open>w\<close>.
\<close>

fun set_column :: "nat \<Rightarrow> 'a \<Rightarrow> (nat \<times> 'a) list \<Rightarrow> (nat \<times> 'a) list" where
  "set_column k v [] = [(k, v)]"
| "set_column k v (c # cs) = (if fst c = k then (k, v) # cs else c # set_column k v cs)"

text \<open>The loop \<^verbatim>\<open>for w in windows\<close>; an assignment that raises ends it.\<close>

fun vol_loop ::
  "bool \<Rightarrow> bool \<Rightarrow> 'd list \<Rightarrow> (symbol \<times> real option list) list \<Rightarrow> nat list \<Rightarrow>
   (nat \<times> real option list) list \<Rightarrow> frame_error + (nat \<times> real option list) list" where
  "vol_loop fill strict idx cols [] result = Inr result"
| "vol_loop fill strict idx cols (w # ws) result =
     (case vol_column fill strict idx cols w of
        Inl e \<Rightarrow> Inl e
      | Inr v \<Rightarrow> vol_loop fill strict idx cols ws (set_column w v result))"

definition compute_volatility ::
  "bool \<Rightarrow> bool \<Rightarrow> 'd price_matrix \<Rightarrow> nat list \<Rightarrow> string \<Rightarrow> frame_error + 'd vol_frame" where
  "compute_volatility fill strict prices windows column =
     (case symbol_columns column (mx_columns prices) of
        Inl e \<Rightarrow> Inl e
      | Inr cols \<Rightarrow>
          (case vol_loop fill strict (mx_index prices) cols windows [] of
             Inl e \<Rightarrow> Inl e
           | Inr cs \<Rightarrow> Inr \<lparr>vf_index = mx_index prices, vf_columns = cs\<rparr>))"

text \<open>The single-period returns of a column of prices, all present, over the rows \<open>i..<j\<close>.\<close>

definition returns_between :: "real list \<Rightarrow> nat \<Rightarrow> nat \<Rightarrow> real list" where
  "returns_between xs i j = map (\<lambda>k. xs ! k / xs ! (k - 1) - 1) [i..<j]"

subsection \<open>Example matrices\<close>

definition three_closes :: "real option list" where
  "three_closes = [Some 100, Some 110, Some 121]"

definition three_days :: "date list" where
  "three_days = [(2024, 1, 2), (2024, 1, 3), (2024, 1, 4)]"

text \<open>The matrix of one symbol, with plain columns and with (field, symbol) columns.\<close>

definition one_symbol :: "date price_matrix" where
  "one_symbol = \<lparr>mx_index = three_days, mx_columns = Plain [(''AAA'', three_closes)]\<rparr>"

definition one_symbol_fields :: "date price_matrix" where
  "one_symbol_fields =
     \<lparr>mx_index = three_days,
      mx_columns = Multi [((''close'', ''AAA''), three_closes),
                          ((''volume'', ''AAA''), [Some 1000, Some 1200, Some 900])]\<rparr>"

text \<open>The matrix of two symbols.\<close>

definition two_symbols :: "date price_matrix" where
  "two_symbols =
     \<lparr>mx_index = three_days,
      mx_columns = Plain [(''AAA'', three_closes), (''BBB'', [Some 50, Some 55, Some 66])]\<rparr>"

section \<open>Properties of \<^verbatim>\<open>get_merged_data\<close>\<close>

lemma quarter_mono:
  assumes "d1 \<le> d2"
  shows "not_later (year_of d1, quarter_of d1) (year_of d2, quarter_of d2)"
proof -
  obtain y1 m1 a1 where d1: "d1 = (y1, m1, a1)" by (cases d1) auto
  obtain y2 m2 a2 where d2: "d2 = (y2, m2, a2)" by (cases d2) auto
  from assms have "y1 < y2 \<or> (y1 = y2 \<and> m1 \<le> m2)"
    unfolding d1 d2 by (auto simp: less_eq_prod_def less_prod_def)
  then show ?thesis
    unfolding d1 d2 not_later_def year_of_def quarter_of_def month_of_def
    by (auto intro: div_le_mono diff_le_mono)
qed

lemma not_later_trans:
  "not_later k q \<Longrightarrow> not_later q q' \<Longrightarrow> not_later k q'"
  unfolding not_later_def by auto

lemma sourced_later:
  "sourced funds s d c v \<Longrightarrow> d \<le> d' \<Longrightarrow> sourced funds s d' c v"
  unfolding sourced_def using quarter_mono not_later_trans by blast

lemma ffill_col_keys: "map row_key (ffill_col c seen rs) = map row_key rs"
  by (induction rs arbitrary: seen) (auto simp: row_key_def split: option.splits)

lemma ffill_col_backed:
  assumes "sorted (map row_key rs)"
    and "\<forall>r\<in>set rs. backed funds r"
    and "\<forall>r\<in>set rs. \<forall>v. seen (j_symbol r) = Some v \<longrightarrow> sourced funds (j_symbol r) (j_date r) c v"
  shows "\<forall>r\<in>set (ffill_col c seen rs). backed funds r"
  using assms
proof (induction rs arbitrary: seen)
  case Nil
  then show ?case by simp
next
  case (Cons r rs)
  have srt: "sorted (map row_key rs)" using Cons.prems(1) by simp
  have later: "\<forall>r'\<in>set rs. j_symbol r' = j_symbol r \<longrightarrow> j_date r \<le> j_date r'"
    using Cons.prems(1) by (auto simp: row_key_def less_eq_prod_def)
  show ?case
  proof (cases "j_funds r c")
    case None
    have b: "\<forall>x\<in>set rs. backed funds x" using Cons.prems(2) by simp
    have s: "\<forall>x\<in>set rs. \<forall>v. seen (j_symbol x) = Some v \<longrightarrow>
               sourced funds (j_symbol x) (j_date x) c v"
      using Cons.prems(3) by simp
    have "backed funds (r\<lparr>j_funds := (j_funds r)(c := seen (j_symbol r))\<rparr>)"
      using Cons.prems(2,3) by (auto simp: backed_def)
    moreover note Cons.IH[OF srt b s]
    ultimately show ?thesis using None by simp
  next
    case (Some v)
    have src: "sourced funds (j_symbol r) (j_date r) c v"
      using Cons.prems(2) Some by (auto simp: backed_def)
    have b: "\<forall>x\<in>set rs. backed funds x" using Cons.prems(2) by simp
    have s: "\<forall>r'\<in>set rs. \<forall>w. (seen(j_symbol r := Some v)) (j_symbol r') = Some w \<longrightarrow>
            sourced funds (j_symbol r') (j_date r') c w"
    proof (intro ballI allI impI)
      fix r' w
      assume r': "r' \<in> set rs" and w: "(seen(j_symbol r := Some v)) (j_symbol r') = Some w"
      show "sourced funds (j_symbol r') (j_date r') c w"
      proof (cases "j_symbol r' = j_symbol r")
        case True
        then have "w = v" using w by simp
        moreover have "j_date r \<le> j_date r'" using later r' True by blast
        ultimately show ?thesis using sourced_later[OF src] True by simp
      next
        case False
        then show ?thesis using Cons.prems(3) r' w by simp
      qed
    qed
    have t: "\<forall>x\<in>set (ffill_col c (seen(j_symbol r := Some v)) rs). backed funds x"
      by (rule Cons.IH[OF srt b s])
    have "backed funds r" using Cons.prems(2) by simp
    then show ?thesis using Some t by simp
  qed
qed

lemma ffill_all_keys: "map row_key (ffill_all cols rs) = map row_key rs"
  unfolding ffill_all_def by (induction cols arbitrary: rs) (auto simp: ffill_col_keys)

lemma ffill_all_backed:
  assumes "sorted (map row_key rs)" and "\<forall>r\<in>set rs. backed funds r"
  shows "\<forall>r\<in>set (ffill_all cols rs). backed funds r"
  using assms unfolding ffill_all_def
proof (induction cols arbitrary: rs)
  case Nil
  then show ?case by simp
next
  case (Cons c cols)
  have "sorted (map row_key (ffill_col c (\<lambda>s. None) rs))"
    using Cons.prems(1) by (simp add: ffill_col_keys)
  moreover have "\<forall>r\<in>set (ffill_col c (\<lambda>s. None) rs). backed funds r"
    by (rule ffill_col_backed[OF Cons.prems(1,2)]) simp
  ultimately show ?case using Cons.IH by simp
qed

lemma left_merge_backed:
  assumes "j \<in> set (left_merge prices funds)"
  shows "backed funds j"
proof -
  from assms obtain p where p: "p \<in> set prices"
    and j: "j \<in> set (case fund_matches funds p of [] \<Rightarrow> [join_row p (\<lambda>c. None)]
                        | ms \<Rightarrow> map (\<lambda>f. join_row p (f_vals f)) ms)"
    unfolding left_merge_def by auto
  show ?thesis
  proof (cases "fund_matches funds p")
    case Nil
    then show ?thesis using j by (simp add: backed_def join_row_def)
  next
    case (Cons a list)
    then obtain f where f: "f \<in> set (fund_matches funds p)" and jf: "j = join_row p (f_vals f)"
      using j by auto
    from f have "f \<in> set funds" "f_symbol f = p_symbol p" "f_year f = year_of (p_date p)"
      "f_quarter f = quarter_of (p_date p)"
      by (auto simp: fund_matches_def)
    then show ?thesis
      unfolding backed_def sourced_def jf join_row_def not_later_def by auto
  qed
qed

lemma get_fundamentals_subset:
  "set (get_fundamentals symbols years db) \<subseteq> set (fundamentals_quarterly db)"
  by (auto simp: get_fundamentals_def)

lemma quarter_of_spec:
  "1 \<le> month_of d \<Longrightarrow> quarter_of d = spec_quarter d"
proof -
  assume m: "1 \<le> month_of d"
  have "\<lceil>real (month_of d) / 3\<rceil> = - (- int (month_of d) div 3)"
    using ceiling_divide_eq_div[of "int (month_of d)" 3] by simp
  then show ?thesis
    unfolding quarter_of_def spec_quarter_def using m by (simp add: nat_eq_iff)
qed

lemma sourced_mono: "sourced fs s d c v \<Longrightarrow> set fs \<subseteq> set gs \<Longrightarrow> sourced gs s d c v"
  unfolding sourced_def by blast

lemma merged_funds_sourced:
  assumes "m \<in> set (get_merged_data symbols start_date end_date price_cols fund_cols db)"
    and "map_of (m_funds m) c = Some (Some v)"
  shows "sourced (fundamentals_quarterly db) (m_symbol m) (m_date m) c v"
proof -
  define prices where "prices = get_price_panel symbols start_date end_date db"
  define funds where "funds = get_fundamentals symbols None db"
  define merged where "merged = ffill_all fund_cols (sort_key row_key (left_merge prices funds))"
  have ne: "\<not> panel_empty prices price_cols" "funds \<noteq> []"
    using assms unfolding get_merged_data_def prices_def funds_def
    by (auto simp: Let_def prices_only_def split: if_splits)
  then have "m \<in> finish_row price_cols fund_cols ` set merged"
    using assms(1) unfolding get_merged_data_def prices_def funds_def merged_def
    by (simp add: Let_def)
  then obtain j where j: "j \<in> set merged" and m: "m = finish_row price_cols fund_cols j"
    by auto
  have "sorted (map row_key (sort_key row_key (left_merge prices funds)))"
    by (rule sorted_sort_key)
  moreover have "\<forall>r\<in>set (sort_key row_key (left_merge prices funds)). backed funds r"
    using left_merge_backed by auto
  ultimately have "backed funds j"
    using ffill_all_backed j unfolding merged_def by blast
  moreover have "j_funds j c = Some v"
    using assms(2) unfolding m finish_row_def project_def
    by (auto simp: map_of_map_restrict restrict_map_def split: if_splits)
  ultimately have "sourced funds (j_symbol j) (j_date j) c v"
    by (auto simp: backed_def)
  moreover have "j_symbol j = m_symbol m" "j_date j = m_date m"
    unfolding m finish_row_def by simp_all
  ultimately show ?thesis
    using sourced_mono[OF _ get_fundamentals_subset] unfolding funds_def by metis
qed

text \<open>
  Claim C1 (no look-ahead). Every non-null fundamental value \<open>v\<close> that
  \<^verbatim>\<open>get_merged_data\<close> puts in column \<open>c\<close> of an output row is the value of column \<open>c\<close>
  in a row of \<^verbatim>\<open>fundamentals_quarterly\<close> of the same symbol whose (year, quarter) is
  less than or equal to the calendar quarter of the row's date; and that quarter,
  \<^verbatim>\<open>dt.quarter\<close>, is the ceiling of month / 3. The values are of any type, so the
  statement holds when each value is tagged with the row it was read from.
\<close>

theorem get_merged_data_no_lookahead:
  assumes "m \<in> set (get_merged_data symbols start_date end_date price_cols fund_cols db)"
    and "map_of (m_funds m) c = Some (Some v)"
  shows "(\<exists>f\<in>set (fundamentals_quarterly db).
            f_symbol f = m_symbol m \<and>
            (f_year f < year_of (m_date m) \<or>
             (f_year f = year_of (m_date m) \<and> f_quarter f \<le> quarter_of (m_date m))) \<and>
            f_vals f c = Some v) \<and>
         (1 \<le> month_of (m_date m) \<longrightarrow> quarter_of (m_date m) = spec_quarter (m_date m))"
  using merged_funds_sourced[OF assms] quarter_of_spec
  unfolding sourced_def not_later_def by simp

theorem get_merged_data_no_lookahead_witness:
  "row_gap_q2 \<in> set (get_merged_data None None None [''close''] [''pe''] db_gap) \<and>
   map_of (m_funds row_gap_q2) ''pe'' = Some (Some 7) \<and>
   (\<exists>f\<in>set (fundamentals_quarterly db_gap).
      f_symbol f = ''AAA'' \<and> (f_year f < 2024 \<or> (f_year f = 2024 \<and> f_quarter f \<le> 2)) \<and>
      f_vals f ''pe'' = Some 7) \<and>
   quarter_of (2024, 5, 10) = spec_quarter (2024, 5, 10)"
proof -
  have h1: "row_gap_q2 \<in> set (get_merged_data None None None [''close''] [''pe''] db_gap)"
    by code_simp
  have h2: "map_of (m_funds row_gap_q2) ''pe'' = Some (Some 7)"
    by (simp add: row_gap_q2_def)
  have q: "quarter_of (2024, 5, 10) = 2" "year_of (2024, 5, 10) = 2024"
    "month_of (2024, 5, 10) = 5"
    by (simp_all add: quarter_of_def year_of_def month_of_def)
  have r: "m_symbol row_gap_q2 = ''AAA''" "m_date row_gap_q2 = (2024, 5, 10)"
    by (simp_all add: row_gap_q2_def)
  show ?thesis
    using h1 h2 get_merged_data_no_lookahead[OF h1 h2] unfolding r q by simp
qed


lemma get_merged_data_keys_sorted:
  assumes "get_fundamentals symbols None db \<noteq> []" and "price_cols \<noteq> []"
  shows "sorted (map (\<lambda>m. (m_symbol m, m_date m))
           (get_merged_data symbols start_date end_date price_cols fund_cols db))"
proof -
  have "map (\<lambda>m. (m_symbol m, m_date m)) (map (finish_row price_cols fund_cols) rs) = map row_key rs" for rs :: "'a joined_row list"
    by (simp add: finish_row_def row_key_def)
  then show ?thesis
    using assms unfolding get_merged_data_def
    by (simp add: Let_def panel_empty_def prices_only_def ffill_all_keys del: map_map)
qed

text \<open>
  Claim C3 (the output keeps the (date, symbol) order of the panel). The code sorts
  \<^verbatim>\<open>merged\<close> by (symbol, date) for the forward fill and never sorts it back, so
  with two symbols on two days the rows of the result come out symbol by symbol,
  while the panel they were built from is day by day. The early return for an empty
  fundamentals table keeps the panel's order.
\<close>

theorem get_merged_data_order_example:
  "map (\<lambda>r. (p_date r, p_symbol r)) (get_price_panel None None None db_two) =
     [((2024, 1, 2), ''AAA''), ((2024, 1, 2), ''BBB''),
      ((2024, 1, 3), ''AAA''), ((2024, 1, 3), ''BBB'')] \<and>
   map (\<lambda>m. (m_date m, m_symbol m))
       (get_merged_data None None None [''close''] [''pe''] db_two) =
     [((2024, 1, 2), ''AAA''), ((2024, 1, 3), ''AAA''),
      ((2024, 1, 2), ''BBB''), ((2024, 1, 3), ''BBB'')]"
  by code_simp

lemma quarter_of_le4:
  assumes "valid_date d"
  shows "quarter_of d \<le> 4"
proof -
  have "month_of d - 1 \<le> 11" using assms unfolding valid_date_def by arith
  then have "(month_of d - 1) div 3 \<le> 11 div 3" by (rule div_le_mono)
  then show ?thesis by (simp add: quarter_of_def)
qed

lemma get_price_panel_drop_annual:
  "get_price_panel symbols start_date end_date (drop_annual db) =
   get_price_panel symbols start_date end_date db"
  by (simp add: get_price_panel_def drop_annual_def)

lemma get_fundamentals_drop_annual:
  "get_fundamentals symbols years (drop_annual db) =
   filter (\<lambda>f. f_quarter f \<noteq> 5) (get_fundamentals symbols years db)"
  by (simp add: get_fundamentals_def drop_annual_def filter_sort conj_commute)

lemma fund_matches_drop_annual:
  assumes "valid_date (p_date p)"
  shows "fund_matches (filter (\<lambda>f. f_quarter f \<noteq> 5) funds) p = fund_matches funds p"
proof -
  have "quarter_of (p_date p) \<noteq> 5" using quarter_of_le4[OF assms] by simp
  then show ?thesis
    unfolding fund_matches_def by (auto intro: filter_cong)
qed

lemma left_merge_drop_annual:
  assumes "\<forall>p\<in>set prices. valid_date (p_date p)"
  shows "left_merge prices (filter (\<lambda>f. f_quarter f \<noteq> 5) funds) = left_merge prices funds"
  unfolding left_merge_def using assms
  by (intro arg_cong[where f=concat] map_cong) (simp_all add: fund_matches_drop_annual)

lemma get_price_panel_subset:
  "set (get_price_panel symbols start_date end_date db) \<subseteq> set (daily_prices db)"
  by (auto simp: get_price_panel_def)

text \<open>
  Claim C10, amended (annual rollups are invisible to the merge). When the dates of
  \<^verbatim>\<open>daily_prices\<close> are calendar dates and the fundamentals table holds at least
  one row of a selected symbol with a quarter other than 5, the output of
  \<^verbatim>\<open>get_merged_data\<close> is the same with and without the rows of quarter 5.
\<close>

theorem get_merged_data_annual_invisible:
  assumes "\<forall>r\<in>set (daily_prices db). valid_date (p_date r)"
    and "\<exists>f\<in>set (fundamentals_quarterly db). f_quarter f \<noteq> 5 \<and> symbol_selected symbols (f_symbol f)"
  shows "get_merged_data symbols start_date end_date price_cols fund_cols (drop_annual db) =
         get_merged_data symbols start_date end_date price_cols fund_cols db"
proof -
  define prices where "prices = get_price_panel symbols start_date end_date db"
  define funds where "funds = get_fundamentals symbols None db"
  have v: "\<forall>p\<in>set prices. valid_date (p_date p)"
    using assms(1) get_price_panel_subset unfolding prices_def by blast
  from assms(2) obtain f where f: "f \<in> set (fundamentals_quarterly db)" "f_quarter f \<noteq> 5"
    "symbol_selected symbols (f_symbol f)" by blast
  then have "f \<in> set (filter (\<lambda>f. f_quarter f \<noteq> 5) funds)"
    unfolding funds_def get_fundamentals_def by simp
  then have ne: "filter (\<lambda>f. f_quarter f \<noteq> 5) funds \<noteq> []" "funds \<noteq> []"
    by (auto simp: filter_empty_conv)
  show ?thesis
    unfolding get_merged_data_def get_price_panel_drop_annual get_fundamentals_drop_annual
    using ne left_merge_drop_annual[OF v]
    by (simp add: Let_def prices_def[symmetric] funds_def[symmetric])
qed

text \<open>
  Claim C10 as stated fails when the rows of quarter 5 are the only fundamental rows:
  with them the fundamentals frame is not empty, the merge runs and the result has the
  column \<^verbatim>\<open>pe\<close>, all null; without them \<^verbatim>\<open>funds.empty\<close> holds and the early return
  gives the price columns only.
\<close>

theorem get_merged_data_annual_counterexample:
  "get_merged_data None None None [''close''] [''pe''] db_annual \<noteq>
   get_merged_data None None None [''close''] [''pe''] (drop_annual db_annual)"
  by code_simp

theorem get_merged_data_annual_invisible_witness:
  "(\<exists>f\<in>set (fundamentals_quarterly db_mixed). f_quarter f = 5) \<and>
   (\<exists>f\<in>set (fundamentals_quarterly db_mixed).
      f_quarter f \<noteq> 5 \<and> symbol_selected None (f_symbol f)) \<and>
   get_merged_data None None None [''close''] [''pe''] (drop_annual db_mixed) =
   get_merged_data None None None [''close''] [''pe''] db_mixed"
proof -
  have h0: "\<exists>f\<in>set (fundamentals_quarterly db_mixed). f_quarter f = 5"
    by (simp add: db_mixed_def)
  have h1: "\<forall>r\<in>set (daily_prices db_mixed). valid_date (p_date r)"
    by (simp add: db_mixed_def valid_date_def month_of_def)
  have h2: "\<exists>f\<in>set (fundamentals_quarterly db_mixed).
      f_quarter f \<noteq> 5 \<and> symbol_selected None (f_symbol f)"
    by (simp add: db_mixed_def symbol_selected_def)
  show ?thesis
    using h0 h2 get_merged_data_annual_invisible[OF h1 h2] by (intro conjI)
qed

lemma ffill_col_origin:
  assumes "j \<in> set (ffill_col c' seen rs)"
  shows "\<exists>j0\<in>set rs. row_key j = row_key j0 \<and>
           (\<forall>c. c \<noteq> c' \<or> j_funds j0 c \<noteq> None \<longrightarrow> j_funds j c = j_funds j0 c)"
  using assms
proof (induction rs arbitrary: seen)
  case Nil
  then show ?case by simp
next
  case (Cons r rs)
  show ?case
  proof (cases "j_funds r c'")
    case None
    then have "j = r\<lparr>j_funds := (j_funds r)(c' := seen (j_symbol r))\<rparr> \<or> j \<in> set (ffill_col c' seen rs)"
      using Cons.prems by simp
    then show ?thesis
    proof
      assume "j = r\<lparr>j_funds := (j_funds r)(c' := seen (j_symbol r))\<rparr>"
      then have "row_key j = row_key r \<and>
           (\<forall>c. c \<noteq> c' \<or> j_funds r c \<noteq> None \<longrightarrow> j_funds j c = j_funds r c)"
        using None by (auto simp: row_key_def)
      then show ?thesis by auto
    next
      assume "j \<in> set (ffill_col c' seen rs)"
      from Cons.IH[OF this] show ?thesis by auto
    qed
  next
    case (Some w)
    then have "j = r \<or> j \<in> set (ffill_col c' (seen(j_symbol r := Some w)) rs)"
      using Cons.prems by simp
    then show ?thesis
    proof
      assume "j = r"
      then show ?thesis by auto
    next
      assume "j \<in> set (ffill_col c' (seen(j_symbol r := Some w)) rs)"
      from Cons.IH[OF this] show ?thesis by auto
    qed
  qed
qed

lemma in_quarter_key:
  "row_key j = row_key j0 \<Longrightarrow> in_quarter s y k j = in_quarter s y k j0"
  by (simp add: row_key_def in_quarter_def)

lemma sorted_keys_later:
  assumes "sorted (map row_key (r # rs))" and "j \<in> set rs" and "j_symbol j = j_symbol r"
  shows "j_date r \<le> j_date j"
  using assms by (auto simp: row_key_def less_eq_prod_def)

lemma quarter_order:
  assumes "d \<le> d'" and "year_of d = y" and "year_of d' = y"
  shows "quarter_of d \<le> quarter_of d'"
  using quarter_mono[OF assms(1)] assms(2,3) by (simp add: not_later_def)

lemma ffill_col_gap:
  assumes "sorted (map row_key rs)"
    and "\<forall>j\<in>set rs. in_quarter s y 1 j \<longrightarrow> j_funds j c = Some v"
    and "\<forall>j\<in>set rs. in_quarter s y 2 j \<longrightarrow> j_funds j c = None"
    and "(\<exists>j\<in>set rs. in_quarter s y 1 j) \<or>
         (seen s = Some v \<and> (\<forall>j\<in>set rs. j_symbol j = s \<longrightarrow>
              not_later (y, 1) (year_of (j_date j), quarter_of (j_date j)))) \<or>
         (\<forall>j\<in>set rs. \<not> in_quarter s y 2 j)"
  shows "\<forall>j\<in>set (ffill_col c seen rs). in_quarter s y 2 j \<longrightarrow> j_funds j c = Some v"
  using assms
proof (induction rs arbitrary: seen)
  case Nil
  then show ?case by simp
next
  case (Cons r rs)
  let ?st = "\<lambda>seen rs. (\<exists>j\<in>set rs. in_quarter s y 1 j) \<or>
         (seen s = Some v \<and> (\<forall>j\<in>set rs. j_symbol j = s \<longrightarrow>
              not_later (y, 1) (year_of (j_date j), quarter_of (j_date j)))) \<or>
         (\<forall>j\<in>set rs. \<not> in_quarter s y 2 j)"
  have srt: "sorted (map row_key rs)" using Cons.prems(1) by simp
  have q1: "\<forall>j\<in>set rs. in_quarter s y 1 j \<longrightarrow> j_funds j c = Some v"
    and q2: "\<forall>j\<in>set rs. in_quarter s y 2 j \<longrightarrow> j_funds j c = None"
    using Cons.prems(2,3) by simp_all
  have later: "\<And>j. j \<in> set rs \<Longrightarrow> j_symbol j = j_symbol r \<Longrightarrow> j_date r \<le> j_date j"
    using sorted_keys_later[OF Cons.prems(1)] by blast
  have step: "\<And>seen'. ?st seen' rs \<Longrightarrow>
      \<forall>j\<in>set (ffill_col c seen' rs). in_quarter s y 2 j \<longrightarrow> j_funds j c = Some v"
    using Cons.IH[OF srt q1 q2] by blast
  \<comment> \<open>a row of the second quarter at the head is filled from an armed state\<close>
  have head: "seen s = Some v" if h: "in_quarter s y 2 r"
  proof -
    have "\<not> (\<exists>j\<in>set (r # rs). in_quarter s y 1 j)"
    proof
      assume "\<exists>j\<in>set (r # rs). in_quarter s y 1 j"
      then obtain j where j: "j \<in> set (r # rs)" "in_quarter s y 1 j" by blast
      then have "j \<noteq> r" using h by (auto simp: in_quarter_def)
      then have jr: "j \<in> set rs" using j by simp
      have "j_date r \<le> j_date j" using later[OF jr] j(2) h by (simp add: in_quarter_def)
      moreover have "year_of (j_date r) = y" "year_of (j_date j) = y"
        using j(2) h by (simp_all add: in_quarter_def)
      ultimately have "quarter_of (j_date r) \<le> quarter_of (j_date j)"
        by (rule quarter_order)
      then show False using j(2) h by (simp add: in_quarter_def)
    qed
    then show ?thesis using Cons.prems(4) h by auto
  qed
  \<comment> \<open>the state after the head row\<close>
  have nxt_other: "?st seen' rs" if "seen' s = seen s" and "\<not> in_quarter s y 1 r"
      and "j_symbol r \<noteq> s \<or> in_quarter s y 2 r" for seen'
    using Cons.prems(4) that by (auto simp: in_quarter_def)
  have nxt_q1: "?st (seen(s := Some v)) rs" if h: "in_quarter s y 1 r"
  proof -
    have "\<forall>j\<in>set rs. j_symbol j = s \<longrightarrow>
              not_later (y, 1) (year_of (j_date j), quarter_of (j_date j))"
    proof (intro ballI impI)
      fix j assume j: "j \<in> set rs" "j_symbol j = s"
      then have "j_date r \<le> j_date j" using later h by (simp add: in_quarter_def)
      from quarter_mono[OF this] show "not_later (y, 1) (year_of (j_date j), quarter_of (j_date j))"
        using h by (simp add: in_quarter_def)
    qed
    then show ?thesis by simp
  qed
  have nxt_late: "?st seen' rs" if sym: "j_symbol r = s" and n1: "\<not> in_quarter s y 1 r"
      and n2: "\<not> in_quarter s y 2 r" for seen'
  proof -
    from Cons.prems(4) consider
      (pending) "\<exists>j\<in>set rs. in_quarter s y 1 j"
      | (armed) "\<forall>j\<in>set (r # rs). j_symbol j = s \<longrightarrow>
              not_later (y, 1) (year_of (j_date j), quarter_of (j_date j))"
      | (finished) "\<forall>j\<in>set rs. \<not> in_quarter s y 2 j"
      using n1 by auto
    then show ?thesis
    proof cases
      case pending
      then show ?thesis by blast
    next
      case armed
      then have r1: "not_later (y, 1) (year_of (j_date r), quarter_of (j_date r))"
        using sym by simp
      have "\<forall>j\<in>set rs. \<not> in_quarter s y 2 j"
      proof
        fix j assume j: "j \<in> set rs"
        show "\<not> in_quarter s y 2 j"
        proof
          assume q: "in_quarter s y 2 j"
          then have le: "j_date r \<le> j_date j" using later[OF j] sym by (simp add: in_quarter_def)
          from quarter_mono[OF le] have
            "not_later (year_of (j_date r), quarter_of (j_date r)) (y, 2)"
            using q by (simp add: in_quarter_def)
          then show False using r1 n1 n2 sym
            by (auto simp: not_later_def in_quarter_def)
        qed
      qed
      then show ?thesis by blast
    next
      case finished
      then show ?thesis by blast
    qed
  qed
  show ?case
  proof (cases "j_funds r c")
    case None
    have n1: "\<not> in_quarter s y 1 r" using Cons.prems(2) None by auto
    have st: "?st seen rs"
    proof (cases "j_symbol r \<noteq> s \<or> in_quarter s y 2 r")
      case True
      then show ?thesis using nxt_other[of seen] n1 by blast
    next
      case False
      then show ?thesis using nxt_late[of seen] n1 by blast
    qed
    have hd: "in_quarter s y 2 r \<longrightarrow> seen (j_symbol r) = Some v"
      using head by (auto simp: in_quarter_def)
    have "in_quarter s y 2 (r\<lparr>j_funds := (j_funds r)(c := seen (j_symbol r))\<rparr>) = in_quarter s y 2 r"
      by (simp add: in_quarter_def)
    then show ?thesis using None step[of seen, OF st] hd by simp
  next
    case (Some w)
    have n2: "\<not> in_quarter s y 2 r" using Cons.prems(3) Some by auto
    have st: "?st (seen(j_symbol r := Some w)) rs"
    proof (cases "in_quarter s y 1 r")
      case True
      then have "w = v" "j_symbol r = s" using Cons.prems(2) Some by (auto simp: in_quarter_def)
      then show ?thesis using nxt_q1[OF True] by simp
    next
      case n1: False
      show ?thesis
      proof (cases "j_symbol r = s")
        case True
        then show ?thesis using nxt_late[of "seen(j_symbol r := Some w)"] n1 n2 by blast
      next
        case False
        then have "(seen(j_symbol r := Some w)) s = seen s" by simp
        from nxt_other[of "seen(j_symbol r := Some w)"] this n1 False show ?thesis by blast
      qed
    qed
    have t: "\<forall>j\<in>set (ffill_col c (seen(j_symbol r := Some w)) rs).
               in_quarter s y 2 j \<longrightarrow> j_funds j c = Some v"
      by (rule step[of "seen(j_symbol r := Some w)", OF st])
    show ?thesis using Some n2 t by simp
  qed
qed

lemma ffill_all_Cons:
  "ffill_all (c # cols) rs = ffill_all cols (ffill_col c (\<lambda>s. None) rs)"
  by (simp add: ffill_all_def)

lemma ffill_all_keeps:
  assumes "\<forall>j\<in>set rs. in_quarter s y k j \<longrightarrow> j_funds j c = Some v"
  shows "\<forall>j\<in>set (ffill_all cols rs). in_quarter s y k j \<longrightarrow> j_funds j c = Some v"
  using assms
proof (induction cols arbitrary: rs)
  case Nil
  then show ?case by (simp add: ffill_all_def)
next
  case (Cons c' cols)
  have "\<forall>j\<in>set (ffill_col c' (\<lambda>s. None) rs). in_quarter s y k j \<longrightarrow> j_funds j c = Some v"
  proof (intro ballI impI)
    fix j assume j: "j \<in> set (ffill_col c' (\<lambda>s. None) rs)" and q: "in_quarter s y k j"
    from ffill_col_origin[OF j] obtain j0 where j0: "j0 \<in> set rs" "row_key j = row_key j0"
      "\<forall>c. c \<noteq> c' \<or> j_funds j0 c \<noteq> None \<longrightarrow> j_funds j c = j_funds j0 c" by blast
    have "in_quarter s y k j0" using q in_quarter_key[OF j0(2)] by simp
    then have "j_funds j0 c = Some v" using Cons.prems j0(1) by blast
    then show "j_funds j c = Some v" using j0(3) by auto
  qed
  from Cons.IH[OF this] show ?case by (simp add: ffill_all_Cons)
qed

lemma ffill_col_other:
  assumes "c \<noteq> c'" and "\<forall>j\<in>set rs. in_quarter s y k j \<longrightarrow> j_funds j c = x"
  shows "\<forall>j\<in>set (ffill_col c' seen rs). in_quarter s y k j \<longrightarrow> j_funds j c = x"
proof (intro ballI impI)
  fix j assume j: "j \<in> set (ffill_col c' seen rs)" and q: "in_quarter s y k j"
  from ffill_col_origin[OF j] obtain j0 where j0: "j0 \<in> set rs" "row_key j = row_key j0"
    "\<forall>c. c \<noteq> c' \<or> j_funds j0 c \<noteq> None \<longrightarrow> j_funds j c = j_funds j0 c" by blast
  have "in_quarter s y k j0" using q in_quarter_key[OF j0(2)] by simp
  then have "j_funds j0 c = x" using assms(2) j0(1) by blast
  then show "j_funds j c = x" using j0(3) assms(1) by simp
qed

lemma in_quarter_exists_keys:
  assumes "map row_key rs' = map row_key rs" and "\<exists>j\<in>set rs. in_quarter s y k j"
  shows "\<exists>j\<in>set rs'. in_quarter s y k j"
proof -
  from assms(2) obtain j where j: "j \<in> set rs" "in_quarter s y k j" by blast
  then have "row_key j \<in> set (map row_key rs')" using assms(1) by simp
  then obtain j' where "j' \<in> set rs'" "row_key j' = row_key j" by auto
  then show ?thesis using j(2) in_quarter_key by blast
qed

lemma ffill_all_gap:
  assumes "sorted (map row_key rs)"
    and "\<forall>j\<in>set rs. in_quarter s y 1 j \<longrightarrow> j_funds j c = Some v"
    and "\<forall>j\<in>set rs. in_quarter s y 2 j \<longrightarrow> j_funds j c = None"
    and "\<exists>j\<in>set rs. in_quarter s y 1 j"
    and "c \<in> set cols"
  shows "\<forall>j\<in>set (ffill_all cols rs). in_quarter s y 2 j \<longrightarrow> j_funds j c = Some v"
  using assms
proof (induction cols arbitrary: rs)
  case Nil
  then show ?case by simp
next
  case (Cons c' cols)
  let ?rs = "ffill_col c' (\<lambda>s. None) rs"
  show ?case
  proof (cases "c' = c")
    case True
    have "\<forall>j\<in>set (ffill_col c (\<lambda>s. None) rs). in_quarter s y 2 j \<longrightarrow> j_funds j c = Some v"
      by (rule ffill_col_gap[OF Cons.prems(1,2,3)]) (use Cons.prems(4) in blast)
    from ffill_all_keeps[OF this] show ?thesis using True by (simp add: ffill_all_Cons)
  next
    case False
    then have ne: "c \<noteq> c'" by simp
    have 1: "sorted (map row_key ?rs)" using Cons.prems(1) by (simp add: ffill_col_keys)
    have 2: "\<forall>j\<in>set ?rs. in_quarter s y 1 j \<longrightarrow> j_funds j c = Some v"
      by (rule ffill_col_other[OF ne Cons.prems(2)])
    have 3: "\<forall>j\<in>set ?rs. in_quarter s y 2 j \<longrightarrow> j_funds j c = None"
      by (rule ffill_col_other[OF ne Cons.prems(3)])
    have 4: "\<exists>j\<in>set ?rs. in_quarter s y 1 j"
      by (rule in_quarter_exists_keys[OF ffill_col_keys Cons.prems(4)])
    have 5: "c \<in> set cols" using Cons.prems(5) False by simp
    from Cons.IH[OF 1 2 3 4 5] show ?thesis by (simp add: ffill_all_Cons)
  qed
qed

lemma left_merge_rows:
  assumes "j \<in> set (left_merge prices funds)"
  shows "\<exists>p\<in>set prices. j_symbol j = p_symbol p \<and> j_date j = p_date p \<and>
           ((fund_matches funds p = [] \<and> j_funds j = (\<lambda>c. None)) \<or>
            (\<exists>f\<in>set (fund_matches funds p). j_funds j = f_vals f))"
proof -
  from assms obtain p where p: "p \<in> set prices"
    and j: "j \<in> set (case fund_matches funds p of [] \<Rightarrow> [join_row p (\<lambda>c. None)]
                        | ms \<Rightarrow> map (\<lambda>f. join_row p (f_vals f)) ms)"
    unfolding left_merge_def by auto
  show ?thesis
  proof (cases "fund_matches funds p")
    case Nil
    then show ?thesis using j p by (auto simp: join_row_def)
  next
    case (Cons a list)
    then obtain f where "f \<in> set (fund_matches funds p)" "j = join_row p (f_vals f)"
      using j by auto
    then show ?thesis using p by (auto simp: join_row_def)
  qed
qed

lemma left_merge_covers:
  assumes "p \<in> set prices"
  shows "\<exists>j\<in>set (left_merge prices funds). j_symbol j = p_symbol p \<and> j_date j = p_date p"
proof (cases "fund_matches funds p")
  case Nil
  then have "join_row p (\<lambda>c. None) \<in> set (left_merge prices funds)"
    using assms unfolding left_merge_def by force
  then show ?thesis by (force simp: join_row_def)
next
  case (Cons f fs)
  then have "join_row p (f_vals f) \<in> set (left_merge prices funds)"
    using assms unfolding left_merge_def by force
  then show ?thesis by (force simp: join_row_def)
qed

lemma get_price_panel_selected:
  "p \<in> set (get_price_panel symbols start_date end_date db) \<Longrightarrow>
   symbol_selected symbols (p_symbol p)"
  by (simp add: get_price_panel_def)

text \<open>
  Where the forward fill does reach a gap. Let a symbol have a fundamental row for Q1
  of a year whose column \<open>c\<close> holds the value \<open>v\<close>, and no row for Q2. If the price
  panel holds a row of the symbol dated in Q1, then every output row of the symbol
  dated in Q2 has \<open>v\<close> in column \<open>c\<close>, for each requested column \<open>c\<close>; and every
  row of the panel has an output row. The fill runs along the rows of the panel: it is
  the price row of Q1 that carries the value to the rows after it.
\<close>

lemma get_merged_data_fill_from_panel:
  assumes f1: "f1 \<in> set (fundamentals_quarterly db)"
      "f_symbol f1 = s" "f_year f1 = y" "f_quarter f1 = 1"
    and q1val: "\<forall>f\<in>set (fundamentals_quarterly db).
           f_symbol f = s \<and> f_year f = y \<and> f_quarter f = 1 \<longrightarrow> f_vals f c = Some v"
    and noq2: "\<forall>f\<in>set (fundamentals_quarterly db).
           \<not> (f_symbol f = s \<and> f_year f = y \<and> f_quarter f = 2)"
    and p1: "p1 \<in> set (get_price_panel symbols start_date end_date db)"
      "p_symbol p1 = s" "year_of (p_date p1) = y" "quarter_of (p_date p1) = 1"
    and c: "c \<in> set fund_cols"
    and pc: "price_cols \<noteq> []"
  shows "(\<forall>m\<in>set (get_merged_data symbols start_date end_date price_cols fund_cols db).
            m_symbol m = s \<and> year_of (m_date m) = y \<and> quarter_of (m_date m) = 2 \<longrightarrow>
            map_of (m_funds m) c = Some (Some v)) \<and>
         (\<forall>p\<in>set (get_price_panel symbols start_date end_date db).
            \<exists>m\<in>set (get_merged_data symbols start_date end_date price_cols fund_cols db).
              m_date m = p_date p \<and> m_symbol m = p_symbol p)"
proof -
  define prices where "prices = get_price_panel symbols start_date end_date db"
  define funds where "funds = get_fundamentals symbols None db"
  define joined where "joined = sort_key row_key (left_merge prices funds)"
  define merged where "merged = ffill_all fund_cols joined"
  have sel: "symbol_selected symbols s" using get_price_panel_selected[OF p1(1)] p1(2) by simp
  have f1in: "f1 \<in> set funds"
    using f1 sel unfolding funds_def get_fundamentals_def by simp
  have sub: "set funds \<subseteq> set (fundamentals_quarterly db)"
    unfolding funds_def by (rule get_fundamentals_subset)
  have ne: "\<not> panel_empty prices price_cols" "funds \<noteq> []"
    using p1(1) f1in pc unfolding prices_def panel_empty_def by auto
  have out: "get_merged_data symbols start_date end_date price_cols fund_cols db =
      map (finish_row price_cols fund_cols) merged"
    using ne unfolding get_merged_data_def merged_def joined_def prices_def funds_def
    by (simp add: Let_def)
  have srt: "sorted (map row_key joined)" unfolding joined_def by (rule sorted_sort_key)
  have q1: "\<forall>j\<in>set joined. in_quarter s y 1 j \<longrightarrow> j_funds j c = Some v"
  proof (intro ballI impI)
    fix j assume "j \<in> set joined" and q: "in_quarter s y 1 j"
    then have "j \<in> set (left_merge prices funds)" by (simp add: joined_def)
    from left_merge_rows[OF this] obtain p where p: "p \<in> set prices"
      "j_symbol j = p_symbol p" "j_date j = p_date p"
      "(fund_matches funds p = [] \<and> j_funds j = (\<lambda>c. None)) \<or>
            (\<exists>f\<in>set (fund_matches funds p). j_funds j = f_vals f)" by blast
    have key: "p_symbol p = s" "year_of (p_date p) = y" "quarter_of (p_date p) = 1"
      using q p(2,3) by (simp_all add: in_quarter_def)
    have "f1 \<in> set (fund_matches funds p)"
      using f1in f1(2,3,4) key by (simp add: fund_matches_def)
    then have "fund_matches funds p \<noteq> []" by auto
    then obtain f where f: "f \<in> set (fund_matches funds p)" "j_funds j = f_vals f"
      using p(4) by blast
    then have "f \<in> set (fundamentals_quarterly db)" "f_symbol f = s" "f_year f = y"
      "f_quarter f = 1"
      using sub key by (auto simp: fund_matches_def)
    then show "j_funds j c = Some v" using q1val f(2) by simp
  qed
  have q2: "\<forall>j\<in>set joined. in_quarter s y 2 j \<longrightarrow> j_funds j c = None"
  proof (intro ballI impI)
    fix j assume "j \<in> set joined" and q: "in_quarter s y 2 j"
    then have "j \<in> set (left_merge prices funds)" by (simp add: joined_def)
    from left_merge_rows[OF this] obtain p where p: "p \<in> set prices"
      "j_symbol j = p_symbol p" "j_date j = p_date p"
      "(fund_matches funds p = [] \<and> j_funds j = (\<lambda>c. None)) \<or>
            (\<exists>f\<in>set (fund_matches funds p). j_funds j = f_vals f)" by blast
    have key: "p_symbol p = s" "year_of (p_date p) = y" "quarter_of (p_date p) = 2"
      using q p(2,3) by (simp_all add: in_quarter_def)
    have "fund_matches funds p = []"
      using noq2 sub key by (auto simp: fund_matches_def filter_empty_conv)
    then show "j_funds j c = None" using p(4) by auto
  qed
  have ex1: "\<exists>j\<in>set joined. in_quarter s y 1 j"
  proof -
    from left_merge_covers[of p1 prices funds] p1(1)
    obtain j where "j \<in> set (left_merge prices funds)" "j_symbol j = p_symbol p1"
      "j_date j = p_date p1" unfolding prices_def by blast
    then show ?thesis using p1(2,3,4) by (auto simp: joined_def in_quarter_def)
  qed
  have filled: "\<forall>j\<in>set merged. in_quarter s y 2 j \<longrightarrow> j_funds j c = Some v"
    unfolding merged_def by (rule ffill_all_gap[OF srt q1 q2 ex1 c])
  have A: "\<forall>m\<in>set (map (finish_row price_cols fund_cols) merged).
            m_symbol m = s \<and> year_of (m_date m) = y \<and> quarter_of (m_date m) = 2 \<longrightarrow>
            map_of (m_funds m) c = Some (Some v)"
  proof (intro ballI impI)
    fix m assume "m \<in> set (map (finish_row price_cols fund_cols) merged)"
      and q: "m_symbol m = s \<and> year_of (m_date m) = y \<and> quarter_of (m_date m) = 2"
    then obtain j where j: "j \<in> set merged" "m = finish_row price_cols fund_cols j" by auto
    then have "in_quarter s y 2 j" using q by (simp add: finish_row_def in_quarter_def)
    then have "j_funds j c = Some v" using filled j(1) by blast
    then show "map_of (m_funds m) c = Some (Some v)"
      using c unfolding j(2) finish_row_def project_def
      by (simp add: map_of_map_restrict)
  qed
  have B: "\<forall>p\<in>set prices. \<exists>m\<in>set (map (finish_row price_cols fund_cols) merged).
              m_date m = p_date p \<and> m_symbol m = p_symbol p"
  proof
    fix p assume "p \<in> set prices"
    from left_merge_covers[OF this, of funds]
    obtain j where j: "j \<in> set joined" "j_symbol j = p_symbol p" "j_date j = p_date p"
      unfolding joined_def by auto
    then have "row_key j \<in> set (map row_key merged)"
      unfolding merged_def ffill_all_keys by simp
    then obtain j' where "j' \<in> set merged" "row_key j' = row_key j" by auto
    then have "finish_row price_cols fund_cols j' \<in> set (map (finish_row price_cols fund_cols) merged)"
      and "j_date j' = p_date p" and "j_symbol j' = p_symbol p"
      using j(2,3) by (simp_all add: row_key_def)
    then have "finish_row price_cols fund_cols j' \<in> set (map (finish_row price_cols fund_cols) merged)"
      "m_date (finish_row price_cols fund_cols j') = p_date p"
      "m_symbol (finish_row price_cols fund_cols j') = p_symbol p"
      by (simp_all add: finish_row_def)
    then show "\<exists>m\<in>set (map (finish_row price_cols fund_cols) merged).
              m_date m = p_date p \<and> m_symbol m = p_symbol p" by blast
  qed
  show ?thesis using A B unfolding out prices_def by blast
qed


lemma get_merged_data_fill_from_panel_example:
  "fund_gap_q1 \<in> set (fundamentals_quarterly db_gap) \<and>
   f_symbol fund_gap_q1 = ''AAA'' \<and> f_year fund_gap_q1 = 2024 \<and> f_quarter fund_gap_q1 = 1 \<and>
   f_vals fund_gap_q1 ''pe'' = Some 7 \<and>
   price_gap_q1 \<in> set (get_price_panel None None None db_gap) \<and>
   p_symbol price_gap_q1 = ''AAA'' \<and> year_of (p_date price_gap_q1) = 2024 \<and>
   quarter_of (p_date price_gap_q1) = 1 \<and>
   (\<exists>m\<in>set (get_merged_data None None None [''close''] [''pe''] db_gap).
      m_symbol m = ''AAA'' \<and> year_of (m_date m) = 2024 \<and> quarter_of (m_date m) = 2 \<and>
      map_of (m_funds m) ''pe'' = Some (Some 7))"
proof -
  have a1: "fund_gap_q1 \<in> set (fundamentals_quarterly db_gap)"
    by (simp add: db_gap_def)
  have a2: "f_symbol fund_gap_q1 = ''AAA''" "f_year fund_gap_q1 = 2024" "f_quarter fund_gap_q1 = 1"
    by (simp_all add: fund_gap_q1_def)
  have a3: "\<forall>f\<in>set (fundamentals_quarterly db_gap).
      f_symbol f = ''AAA'' \<and> f_year f = 2024 \<and> f_quarter f = 1 \<longrightarrow> f_vals f ''pe'' = Some 7"
    by (simp add: db_gap_def fund_gap_q1_def pe_only_def)
  have a4: "\<forall>f\<in>set (fundamentals_quarterly db_gap).
      \<not> (f_symbol f = ''AAA'' \<and> f_year f = 2024 \<and> f_quarter f = 2)"
    by (simp add: db_gap_def fund_gap_q1_def)
  have a5: "price_gap_q1 \<in> set (get_price_panel None None None db_gap)"
    by (simp add: get_price_panel_def db_gap_def symbol_selected_def date_selected_def)
  have a6: "p_symbol price_gap_q1 = ''AAA''" "year_of (p_date price_gap_q1) = 2024"
    "quarter_of (p_date price_gap_q1) = 1"
    by (simp_all add: price_gap_q1_def year_of_def quarter_of_def month_of_def)
  have a7: "''pe'' \<in> set [''pe'']" by simp
  have a7': "[''close''] \<noteq> []" by simp
  have a8: "\<exists>m\<in>set (get_merged_data None None None [''close''] [''pe''] db_gap).
      m_symbol m = ''AAA'' \<and> year_of (m_date m) = 2024 \<and> quarter_of (m_date m) = 2"
    by code_simp
  have a9: "f_vals fund_gap_q1 ''pe'' = Some 7" by (simp add: fund_gap_q1_def pe_only_def)
  have c: "\<exists>m\<in>set (get_merged_data None None None [''close''] [''pe''] db_gap).
      m_symbol m = ''AAA'' \<and> year_of (m_date m) = 2024 \<and> quarter_of (m_date m) = 2 \<and>
      map_of (m_funds m) ''pe'' = Some (Some 7)"
    using a8 get_merged_data_fill_from_panel[OF a1 a2 a3 a4 a5 a6 a7 a7']
    by blast
  show ?thesis
    using a1 a2 a9 a5 a6 c by (intro conjI)
qed

text \<open>
  The fill carries the last value that is not null: when the fundamental row of Q1
  holds no \<^verbatim>\<open>pe\<close>, the price rows of Q1 and Q2 get the value of Q4 of the year
  before.
\<close>

lemma get_merged_data_null_q1_example:
  "get_merged_data None None None [''close''] [''pe''] db_null_q1 =
     [\<lparr>m_date = (2023, 11, 10), m_symbol = ''AAA'',
       m_prices = [(''close'', Some 9)], m_funds = [(''pe'', Some 5)]\<rparr>,
      \<lparr>m_date = (2024, 2, 15), m_symbol = ''AAA'',
       m_prices = [(''close'', Some 10)], m_funds = [(''pe'', Some 5)]\<rparr>,
      \<lparr>m_date = (2024, 5, 10), m_symbol = ''AAA'',
       m_prices = [(''close'', Some 11)], m_funds = [(''pe'', Some 5)]\<rparr>]"
  by code_simp

text \<open>
  A panel asked for with no price column is empty for \<^verbatim>\<open>prices.empty\<close>: its rows
  come back with no column, and no fundamental is merged.
\<close>

lemma get_merged_data_no_price_cols:
  "get_merged_data symbols start_date end_date [] fund_cols db =
   map (prices_only []) (get_price_panel symbols start_date end_date db)"
  by (simp add: get_merged_data_def panel_empty_def)

text \<open>
  Claim C2 (forward fill across a missing quarter). The store holds the fundamentals
  of one symbol for Q1 (\<^verbatim>\<open>pe\<close> = 7) and Q3 (\<^verbatim>\<open>pe\<close> = 9) of 2024 and none for Q2,
  and a price row on 2024-05-10, in Q2. Asked for from 2024-04-01 on, the code gives
  that row no \<^verbatim>\<open>pe\<close> at all: the fundamentals are joined to the rows of the panel
  and filled forward along them, the panel holds no row of Q1, and so the value of Q1
  never enters the frame. The same row gets 7, the value of Q1, when the panel starts
  in Q1. The docstring promises the most recent available quarter for every row.
\<close>

theorem get_merged_data_start_in_gap:
  "map (\<lambda>f. (f_symbol f, f_year f, f_quarter f, f_vals f ''pe''))
       (get_fundamentals None None db_gap) =
     [(''AAA'', 2024, 1, Some 7), (''AAA'', 2024, 3, Some 9)] \<and>
   get_merged_data None (Some (2024, 4, 1)) None [''close''] [''pe''] db_gap =
     [\<lparr>m_date = (2024, 5, 10), m_symbol = ''AAA'',
       m_prices = [(''close'', Some 11)], m_funds = [(''pe'', None)]\<rparr>,
      \<lparr>m_date = (2024, 8, 20), m_symbol = ''AAA'',
       m_prices = [(''close'', Some 12)], m_funds = [(''pe'', Some 9)]\<rparr>] \<and>
   get_merged_data None None None [''close''] [''pe''] db_gap =
     [\<lparr>m_date = (2024, 2, 15), m_symbol = ''AAA'',
       m_prices = [(''close'', Some 10)], m_funds = [(''pe'', Some 7)]\<rparr>,
      \<lparr>m_date = (2024, 5, 10), m_symbol = ''AAA'',
       m_prices = [(''close'', Some 11)], m_funds = [(''pe'', Some 7)]\<rparr>,
      \<lparr>m_date = (2024, 8, 20), m_symbol = ''AAA'',
       m_prices = [(''close'', Some 12)], m_funds = [(''pe'', Some 9)]\<rparr>]"
  by code_simp

section \<open>Properties of the importers\<close>

lemma to_datetime_bad:
  "\<exists>x\<in>set xs. is_bad x \<Longrightarrow> to_datetime xs = Inl DateParseError"
  by (induction xs) (auto simp: is_bad_def split: date_cell.splits sum.splits)

lemma to_datetime_good:
  "\<forall>x\<in>set xs. \<not> is_bad x \<Longrightarrow> to_datetime xs = Inr (map stamp_of xs)"
  by (induction xs) (auto simp: is_bad_def stamp_of_def split: date_cell.splits sum.splits)

lemma to_datetime_Inr:
  "to_datetime xs = Inr ds \<Longrightarrow> (\<forall>x\<in>set xs. \<not> is_bad x) \<and> ds = map stamp_of xs"
  using to_datetime_bad[of xs] to_datetime_good[of xs] by (cases "\<exists>x\<in>set xs. is_bad x") auto

lemma to_datetime_Inl:
  "to_datetime xs = Inl e \<Longrightarrow> e = DateParseError"
  using to_datetime_bad[of xs] to_datetime_good[of xs] by (cases "\<exists>x\<in>set xs. is_bad x") auto

lemma extract_pct_cases:
  "extract_pct x = Inl FloatParseError \<or> extract_pct x = Inr (pct_of x)"
  unfolding pct_of_def extract_pct_def by (auto split: option.splits val.splits)

lemma extract_all_bad:
  "\<exists>x\<in>set xs. is_float_error x \<Longrightarrow> extract_all xs = Inl FloatParseError"
proof (induction xs)
  case Nil
  then show ?case by simp
next
  case (Cons x xs)
  show ?case
  proof (cases "is_float_error x")
    case True
    then show ?thesis by (simp add: is_float_error_def)
  next
    case False
    then have "extract_pct x = Inr (pct_of x)"
      using extract_pct_cases[of x] by (simp add: is_float_error_def)
    moreover have "extract_all xs = Inl FloatParseError" using Cons False by simp
    ultimately show ?thesis by simp
  qed
qed

lemma extract_all_good:
  "\<forall>x\<in>set xs. \<not> is_float_error x \<Longrightarrow> extract_all xs = Inr (map pct_of xs)"
proof (induction xs)
  case Nil
  then show ?case by simp
next
  case (Cons x xs)
  then have "extract_pct x = Inr (pct_of x)"
    using extract_pct_cases[of x] by (simp add: is_float_error_def)
  moreover have "extract_all xs = Inr (map pct_of xs)" using Cons by simp
  ultimately show ?case by simp
qed

lemma executemany_null:
  "None \<in> set (map fst xs) \<Longrightarrow> executemany df symbol xs t = Inl IntegrityError"
proof (induction xs arbitrary: t)
  case Nil
  then show ?case by simp
next
  case (Cons x xs)
  obtain dt pct r where x: "x = (dt, pct, r)" by (cases x) auto
  show ?case using Cons unfolding x by (cases dt) auto
qed

lemma executemany_good:
  "None \<notin> set (map fst xs) \<Longrightarrow>
   executemany df symbol xs t = Inr (fold upsert_price (recs_of df symbol xs) t)"
proof (induction xs arbitrary: t)
  case Nil
  then show ?case by simp
next
  case (Cons x xs)
  obtain dt pct r where x: "x = (dt, pct, r)" by (cases x) auto
  then obtain d where d: "dt = Some d" using Cons.prems by (cases dt) auto
  have "executemany df symbol xs (upsert_price (price_record df symbol d pct r) t) =
        Inr (fold upsert_price (recs_of df symbol xs) (upsert_price (price_record df symbol d pct r) t))"
    using Cons by simp
  then show ?case unfolding x d by simp
qed

lemma fold_upsert_split:
  "fold upsert_price xs t =
   filter (\<lambda>y. price_key y \<notin> price_key ` set xs) t @ fold upsert_price xs []"
proof (induction xs arbitrary: t)
  case Nil
  then show ?case by simp
next
  case (Cons x xs)
  let ?out = "\<lambda>y. price_key y \<notin> price_key ` set xs"
  have f: "filter ?out (filter (\<lambda>y. price_key y \<noteq> price_key x) t) =
           filter (\<lambda>y. price_key y \<notin> price_key ` set (x # xs)) t"
    by (induction t) auto
  have "fold upsert_price (x # xs) t = fold upsert_price xs (upsert_price x t)" by simp
  also have "\<dots> = filter ?out (upsert_price x t) @ fold upsert_price xs []"
    by (rule Cons.IH)
  also have "filter ?out (upsert_price x t) =
      filter (\<lambda>y. price_key y \<notin> price_key ` set (x # xs)) t @ filter ?out [x]"
    unfolding upsert_price_def filter_append f ..
  finally have 1: "fold upsert_price (x # xs) t =
      filter (\<lambda>y. price_key y \<notin> price_key ` set (x # xs)) t @ filter ?out [x] @
      fold upsert_price xs []" by simp
  have "upsert_price x [] = [x]" by (simp add: upsert_price_def)
  then have "fold upsert_price (x # xs) [] = fold upsert_price xs [x]" by simp
  also have "\<dots> = filter ?out [x] @ fold upsert_price xs []" by (rule Cons.IH)
  finally show ?case using 1 by simp
qed

lemma upsert_price_keys:
  "price_key ` set (upsert_price x t) = insert (price_key x) (price_key ` set t)"
proof
  show "price_key ` set (upsert_price x t) \<subseteq> insert (price_key x) (price_key ` set t)"
    unfolding upsert_price_def by auto
  show "insert (price_key x) (price_key ` set t) \<subseteq> price_key ` set (upsert_price x t)"
  proof
    fix k assume "k \<in> insert (price_key x) (price_key ` set t)"
    then consider "k = price_key x" | y where "y \<in> set t" "k = price_key y" "k \<noteq> price_key x"
      by blast
    then show "k \<in> price_key ` set (upsert_price x t)"
    proof cases
      case 1
      then show ?thesis unfolding upsert_price_def by simp
    next
      case 2
      then have "y \<in> set (upsert_price x t)" unfolding upsert_price_def by simp
      then show ?thesis using 2(2) by blast
    qed
  qed
qed

lemma fold_upsert_keys_eq:
  "price_key ` set (fold upsert_price xs t) = price_key ` set t \<union> price_key ` set xs"
proof (induction xs arbitrary: t)
  case Nil
  then show ?case by simp
next
  case (Cons x xs)
  have "price_key ` set (fold upsert_price (x # xs) t) =
        price_key ` set (upsert_price x t) \<union> price_key ` set xs"
    using Cons.IH[of "upsert_price x t"] by simp
  then show ?case unfolding upsert_price_keys by auto
qed

lemma fold_upsert_idem:
  "fold upsert_price xs (fold upsert_price xs t) = fold upsert_price xs t"
proof -
  let ?out = "\<lambda>y. price_key y \<notin> price_key ` set xs"
  have "filter ?out (fold upsert_price xs []) = []"
    using fold_upsert_keys_eq[of xs "[]"] by (auto simp: filter_empty_conv)
  then have "filter ?out (fold upsert_price xs t) = filter ?out t"
    by (subst fold_upsert_split) simp
  then show ?thesis
    using fold_upsert_split[of xs "fold upsert_price xs t"] fold_upsert_split[of xs t] by simp
qed

lemma upsert_price_distinct:
  "distinct (map price_key t) \<Longrightarrow> distinct (map price_key (upsert_price x t))"
  unfolding upsert_price_def by (auto simp: distinct_map_filter)

lemma fold_upsert_distinct:
  "distinct (map price_key t) \<Longrightarrow> distinct (map price_key (fold upsert_price xs t))"
  by (induction xs arbitrary: t) (simp_all add: upsert_price_distinct)


lemma zip_columns:
  "zip (map f xs) (zip (map g xs) xs) = map (\<lambda>x. (f x, g x, x)) xs"
  by (induction xs) simp_all

lemma replicate_column: "replicate (length xs) c = map (\<lambda>x. c) xs"
  by (induction xs) simp_all

lemma batch_records_iff:
  "x \<in> set (batch_records df symbol) \<longleftrightarrow>
   (\<exists>r\<in>set (rows df). \<exists>d. batch_date df r = Some d \<and>
      x = price_record df symbol d (batch_pct df r) r)"
proof -
  have "x \<in> set (recs_of df symbol (map (\<lambda>r. (batch_date df r, batch_pct df r, r)) rs)) \<longleftrightarrow>
   (\<exists>r\<in>set rs. \<exists>d. batch_date df r = Some d \<and>
      x = price_record df symbol d (batch_pct df r) r)" for rs
    by (induction rs) (auto split: option.splits)
  then show ?thesis unfolding batch_records_def .
qed

lemma ensure_symbol_daily [simp]:
  "daily_prices (ensure_symbol symbol now db) = daily_prices db"
  by (simp add: ensure_symbol_def)

lemma ensure_symbol_idem:
  "ensure_symbol symbol now' ((ensure_symbol symbol now db)\<lparr>daily_prices := t\<rparr>) =
   (ensure_symbol symbol now db)\<lparr>daily_prices := t\<rparr>"
  by (simp add: ensure_symbol_def bare_symbol_def)

text \<open>The import in closed form.\<close>

lemma import_daily_prices_eq:
  "import_daily_prices df symbol now db =
     (if ''date'' \<in> set (columns df) \<and> (\<exists>r\<in>set (rows df). is_bad (r_date r))
      then Inl DateParseError
      else if ''change'' \<in> set (columns df) \<and>
              (\<exists>r\<in>set (rows df). is_float_error (r_cells r ''change''))
      then Inl FloatParseError
      else if \<exists>r\<in>set (rows df). batch_date df r = None then Inl IntegrityError
      else Inr ((ensure_symbol symbol now db)
                  \<lparr>daily_prices := fold upsert_price (batch_records df symbol) (daily_prices db)\<rparr>,
                length (rows df)))"
proof -
  let ?n = "length (rows df)"
  let ?D = "if ''date'' \<in> set (columns df) then to_datetime (map r_date (rows df))
            else Inr (replicate ?n None)"
  let ?P = "if ''change'' \<in> set (columns df)
            then map_sum id (map Some) (extract_all (map (\<lambda>r. r_cells r ''change'') (rows df)))
            else Inr (replicate ?n None)"
  have D: "?D = (if ''date'' \<in> set (columns df) \<and> (\<exists>r\<in>set (rows df). is_bad (r_date r))
                 then Inl DateParseError else Inr (map (batch_date df) (rows df)))"
    using to_datetime_bad[of "map r_date (rows df)"] to_datetime_good[of "map r_date (rows df)"]
    by (auto simp: batch_date_def replicate_column comp_def)
  have P: "?P = (if ''change'' \<in> set (columns df) \<and>
                    (\<exists>r\<in>set (rows df). is_float_error (r_cells r ''change''))
                 then Inl FloatParseError else Inr (map (batch_pct df) (rows df)))"
    using extract_all_bad[of "map (\<lambda>r. r_cells r ''change'') (rows df)"]
      extract_all_good[of "map (\<lambda>r. r_cells r ''change'') (rows df)"]
    by (auto simp: batch_pct_def replicate_column comp_def)
  let ?zs = "map (\<lambda>r. (batch_date df r, batch_pct df r, r)) (rows df)"
  have Z: "zip (map (batch_date df) (rows df)) (zip (map (batch_pct df) (rows df)) (rows df)) = ?zs"
    by (rule zip_columns)
  have fsts: "map fst ?zs = map (batch_date df) (rows df)" by simp
  have cond: "(None \<in> set (map fst ?zs)) = (\<exists>r\<in>set (rows df). batch_date df r = None)"
    unfolding fsts by (simp add: image_iff eq_commute[of None])
  let ?c1 = "''date'' \<in> set (columns df) \<and> (\<exists>r\<in>set (rows df). is_bad (r_date r))"
  let ?c2 = "''change'' \<in> set (columns df) \<and>
              (\<exists>r\<in>set (rows df). is_float_error (r_cells r ''change''))"
  let ?c3 = "\<exists>r\<in>set (rows df). batch_date df r = None"
  consider (bad) ?c1 | (flt) "\<not> ?c1" ?c2 | (null) "\<not> ?c1" "\<not> ?c2" ?c3
    | (good) "\<not> ?c1" "\<not> ?c2" "\<not> ?c3"
    by blast
  then show ?thesis
  proof cases
    case bad
    then have "?D = Inl DateParseError" unfolding D by simp
    then show ?thesis unfolding import_daily_prices_def Let_def using bad by simp
  next
    case flt
    then have "?D = Inr (map (batch_date df) (rows df))" "?P = Inl FloatParseError"
      unfolding D P by simp_all
    then show ?thesis unfolding import_daily_prices_def Let_def using flt by simp
  next
    case null
    then have "None \<in> set (map fst ?zs)" unfolding cond by simp
    from executemany_null[OF this]
    have "executemany df symbol ?zs (daily_prices (ensure_symbol symbol now db)) = Inl IntegrityError" .
    moreover have "?D = Inr (map (batch_date df) (rows df))" "?P = Inr (map (batch_pct df) (rows df))"
      using null unfolding D P by simp_all
    ultimately show ?thesis unfolding import_daily_prices_def Let_def using null by (simp add: Z)
  next
    case good
    then have "None \<notin> set (map fst ?zs)" unfolding cond by simp
    from executemany_good[OF this]
    have "executemany df symbol ?zs (daily_prices (ensure_symbol symbol now db)) =
          Inr (fold upsert_price (batch_records df symbol) (daily_prices db))"
      unfolding batch_records_def by simp
    moreover have "?D = Inr (map (batch_date df) (rows df))" "?P = Inr (map (batch_pct df) (rows df))"
      using good unfolding D P by simp_all
    ultimately show ?thesis unfolding import_daily_prices_def Let_def using good by (simp add: Z)
  qed
qed

lemma import_error_independent:
  assumes "import_daily_prices df symbol now db = Inl e"
  shows "import_daily_prices df symbol now' db' = Inl e"
proof -
  let ?c1 = "''date'' \<in> set (columns df) \<and> (\<exists>r\<in>set (rows df). is_bad (r_date r))"
  let ?c2 = "''change'' \<in> set (columns df) \<and>
              (\<exists>r\<in>set (rows df). is_float_error (r_cells r ''change''))"
  let ?c3 = "\<exists>r\<in>set (rows df). batch_date df r = None"
  consider (bad) ?c1 | (flt) "\<not> ?c1" ?c2 | (null) "\<not> ?c1" "\<not> ?c2" ?c3
    | (good) "\<not> ?c1" "\<not> ?c2" "\<not> ?c3"
    by blast
  then show ?thesis
  proof cases
    case bad
    have "import_daily_prices df symbol now db = Inl DateParseError"
      "import_daily_prices df symbol now' db' = Inl DateParseError"
      unfolding import_daily_prices_eq by (rule if_P[OF bad])+
    then show ?thesis using assms by simp
  next
    case flt
    have "import_daily_prices df symbol now db = Inl FloatParseError"
      "import_daily_prices df symbol now' db' = Inl FloatParseError"
      unfolding import_daily_prices_eq
      by (rule trans[OF if_not_P[OF flt(1)] if_P[OF flt(2)]])+
    then show ?thesis using assms by simp
  next
    case null
    have "import_daily_prices df symbol now db = Inl IntegrityError"
      "import_daily_prices df symbol now' db' = Inl IntegrityError"
      unfolding import_daily_prices_eq
      by (rule trans[OF if_not_P[OF null(1)] trans[OF if_not_P[OF null(2)] if_P[OF null(3)]]])+
    then show ?thesis using assms by simp
  next
    case good
    have "import_daily_prices df symbol now db =
        Inr ((ensure_symbol symbol now db)
               \<lparr>daily_prices := fold upsert_price (batch_records df symbol) (daily_prices db)\<rparr>,
             length (rows df))"
      unfolding import_daily_prices_eq
      by (rule trans[OF if_not_P[OF good(1)] trans[OF if_not_P[OF good(2)] if_not_P[OF good(3)]]])
    then show ?thesis using assms by simp
  qed
qed

lemma import_twice:
  assumes "import_daily_prices df symbol now db = Inr (db1, n)"
  shows "import_daily_prices df symbol now' db1 = Inr (db1, n) \<and>
         (distinct (map price_key (daily_prices db)) \<longrightarrow>
            distinct (map price_key (daily_prices db1)))"
proof -
  let ?t = "fold upsert_price (batch_records df symbol) (daily_prices db)"
  from assms have ok: "\<not> (''date'' \<in> set (columns df) \<and> (\<exists>r\<in>set (rows df). is_bad (r_date r)))"
    "\<not> (''change'' \<in> set (columns df) \<and>
              (\<exists>r\<in>set (rows df). is_float_error (r_cells r ''change'')))"
    "\<not> (\<exists>r\<in>set (rows df). batch_date df r = None)"
    and db1: "db1 = (ensure_symbol symbol now db)\<lparr>daily_prices := ?t\<rparr>"
    and n: "n = length (rows df)"
    unfolding import_daily_prices_eq by (auto split: if_splits)
  have "import_daily_prices df symbol now' db1 =
      Inr ((ensure_symbol symbol now' db1)
             \<lparr>daily_prices := fold upsert_price (batch_records df symbol) (daily_prices db1)\<rparr>, n)"
    unfolding import_daily_prices_eq using ok n by simp
  moreover have "ensure_symbol symbol now' db1 = db1"
    unfolding db1 by (rule ensure_symbol_idem)
  moreover have "fold upsert_price (batch_records df symbol) (daily_prices db1) = daily_prices db1"
    unfolding db1 by (simp add: fold_upsert_idem)
  ultimately have "import_daily_prices df symbol now' db1 = Inr (db1, n)" by simp
  moreover have "distinct (map price_key (daily_prices db)) \<longrightarrow>
            distinct (map price_key (daily_prices db1))"
    unfolding db1 by (simp add: fold_upsert_distinct)
  ultimately show ?thesis by simp
qed

text \<open>
  Claim C9 (idempotence of the daily-price import). Importing a batch twice, the second
  time at any later moment, leaves the store as importing it once does: the same rows
  in \<^verbatim>\<open>daily_prices\<close>, with the same value in every field, and the same
  \<^verbatim>\<open>symbols\<close>. When the first import returns a count, the second returns the same
  count; when it raises, nothing is committed either time. The replace by key keeps
  the (symbol, date) keys of \<^verbatim>\<open>daily_prices\<close> distinct.
\<close>

theorem import_daily_prices_idempotent:
  "store_after df symbol now' (store_after df symbol now db) = store_after df symbol now db \<and>
   (import_daily_prices df symbol now db = Inr (db1, n) \<longrightarrow>
      import_daily_prices df symbol now' db1 = Inr (db1, n)) \<and>
   (distinct (map price_key (daily_prices db)) \<longrightarrow>
      distinct (map price_key (daily_prices (store_after df symbol now db))))"
proof (cases "import_daily_prices df symbol now db")
  case (Inl e)
  then have "import_daily_prices df symbol now' db = Inl e"
    by (rule import_error_independent)
  then show ?thesis using Inl by (simp add: store_after_def)
next
  case (Inr res)
  obtain db2 m where res: "res = (db2, m)" by (cases res) auto
  have first: "import_daily_prices df symbol now db = Inr (db2, m)" using Inr res by simp
  note twice = import_twice[OF first, of now']
  have a: "store_after df symbol now db = db2" using first by (simp add: store_after_def)
  have b: "store_after df symbol now' db2 = db2" using twice by (simp add: store_after_def)
  have c: "import_daily_prices df symbol now db = Inr (db1, n) \<longrightarrow>
      import_daily_prices df symbol now' db1 = Inr (db1, n)"
    using first twice by auto
  show ?thesis unfolding a b using c twice by simp
qed

lemma df_eight_ok: "batch_ok df_eight"
  by (simp add: batch_ok_def df_eight_def eight_days_def day_row_def is_bad_def batch_date_def stamp_of_def)

lemma batch_records_eight:
  "batch_records df_eight ''AAA'' =
   map (\<lambda>k. price_record df_eight ''AAA'' (2024, 1, k) None (day_row k)) eight_days"
  apply (simp add: batch_records_def batch_date_def batch_pct_def eight_days_def)
  apply (simp add: df_eight_def eight_days_def day_row_def stamp_of_def)
  done

lemma import_eight:
  "import_daily_prices df_eight ''AAA'' ''2024-01-12 00:00:00'' db_empty = Inr (db_eight, 8)"
  unfolding import_daily_prices_eq
  apply (simp add: batch_records_eight)
  apply (simp add: df_eight_def eight_days_def day_row_def is_bad_def batch_date_def stamp_of_def
     db_empty_def db_eight_def ensure_symbol_def upsert_price_def price_key_def price_record_def)
  done

theorem import_daily_prices_idempotent_witness:
  "import_daily_prices df_eight ''AAA'' ''2024-01-12 00:00:00'' db_empty = Inr (db_eight, 8) \<and>
   import_daily_prices df_eight ''AAA'' ''2024-01-13 00:00:00'' db_eight = Inr (db_eight, 8) \<and>
   store_after df_eight ''AAA'' ''2024-01-13 00:00:00''
     (store_after df_eight ''AAA'' ''2024-01-12 00:00:00'' db_empty) = db_eight \<and>
   distinct (map price_key (daily_prices db_eight)) \<and> length (daily_prices db_eight) = 8"
proof -
  have d: "distinct (map price_key (daily_prices db_empty))" by (simp add: db_empty_def)
  have l: "length (daily_prices db_eight) = 8" by (simp add: db_eight_def eight_days_def)
  have s: "store_after df_eight ''AAA'' ''2024-01-12 00:00:00'' db_empty = db_eight"
    using import_eight by (simp add: store_after_def)
  note t = import_daily_prices_idempotent[of df_eight "''AAA''" "''2024-01-13 00:00:00''"
      "''2024-01-12 00:00:00''" db_empty db_eight 8]
  show ?thesis
    using import_eight t d l unfolding s by simp
qed

lemma stamp_of_Some: "stamp_of x = Some d \<longleftrightarrow> x = Stamp d"
  by (cases x) (simp_all add: stamp_of_def)

lemma is_bad_iff: "is_bad x \<longleftrightarrow> (\<exists>s. x = BadDate s)"
  by (cases x) (simp_all add: is_bad_def)

lemma batch_date_Some:
  "batch_date df r = Some d \<longleftrightarrow> ''date'' \<in> set (columns df) \<and> r_date r = Stamp d"
  by (simp add: batch_date_def stamp_of_Some)

lemma import_daily_prices_Inr:
  assumes "import_daily_prices df symbol now db = Inr (db', n)"
  shows "n = length (rows df)"
    and "db' = (ensure_symbol symbol now db)
                 \<lparr>daily_prices := fold upsert_price (batch_records df symbol) (daily_prices db)\<rparr>"
    and "\<forall>r\<in>set (rows df). \<exists>d. batch_date df r = Some d"
  using assms unfolding import_daily_prices_eq by (auto split: if_splits)

lemma import_daily_prices_raises:
  assumes "r \<in> set (rows df)" and "\<forall>d. batch_date df r \<noteq> Some d"
  shows "\<exists>e. import_daily_prices df symbol now db = Inl e"
proof -
  have "batch_date df r = None"
  proof (cases "batch_date df r")
    case None
    then show ?thesis .
  next
    case (Some d)
    then show ?thesis using assms(2) by blast
  qed
  then have "\<exists>r\<in>set (rows df). batch_date df r = None" using assms(1) by blast
  then show ?thesis unfolding import_daily_prices_eq by simp
qed

text \<open>
  Claim C4, amended (what the daily-price import returns). \<^verbatim>\<open>import_daily_prices\<close>
  returns one count and no count of skipped rows. When it returns, the count is the
  number of rows of the batch, and every row of the batch had a date that parsed and
  has its (symbol, date) key in \<^verbatim>\<open>daily_prices\<close>. A batch with a row that has no
  parseable date (or a non-empty batch with no \<^verbatim>\<open>date\<close> column) makes the importer
  raise. A batch with a \<^verbatim>\<open>date\<close> column, no \<^verbatim>\<open>change\<close> column and a parseable
  date in every row is imported, and the count is the number of its rows.
\<close>

theorem import_daily_prices_count:
  "(import_daily_prices df symbol now db = Inr (db', n) \<longrightarrow>
      n = length (rows df) \<and>
      (\<forall>r\<in>set (rows df). \<exists>d. r_date r = Stamp d \<and>
          (symbol, d) \<in> price_key ` set (daily_prices db'))) \<and>
   ((\<exists>r\<in>set (rows df). ''date'' \<notin> set (columns df) \<or> (\<forall>d. r_date r \<noteq> Stamp d)) \<longrightarrow>
      (\<exists>e. import_daily_prices df symbol now db = Inl e)) \<and>
   (''date'' \<in> set (columns df) \<and> ''change'' \<notin> set (columns df) \<and>
    (\<forall>r\<in>set (rows df). \<exists>d. r_date r = Stamp d) \<longrightarrow>
      (\<exists>db1. import_daily_prices df symbol now db = Inr (db1, length (rows df))))"
proof -
  have A: "import_daily_prices df symbol now db = Inr (db', n) \<longrightarrow>
      n = length (rows df) \<and>
      (\<forall>r\<in>set (rows df). \<exists>d. r_date r = Stamp d \<and>
          (symbol, d) \<in> price_key ` set (daily_prices db'))"
  proof
    assume ok: "import_daily_prices df symbol now db = Inr (db', n)"
    note facts = import_daily_prices_Inr[OF ok]
    have "\<forall>r\<in>set (rows df). \<exists>d. r_date r = Stamp d \<and>
          (symbol, d) \<in> price_key ` set (daily_prices db')"
    proof
      fix r assume r: "r \<in> set (rows df)"
      then obtain d where d: "batch_date df r = Some d" using facts(3) by blast
      then have st: "r_date r = Stamp d" by (simp add: batch_date_Some)
      have "price_record df symbol d (batch_pct df r) r \<in> set (batch_records df symbol)"
        unfolding batch_records_iff using r d by blast
      moreover have "price_key (price_record df symbol d (batch_pct df r) r) = (symbol, d)"
        by (simp add: price_key_def price_record_def)
      ultimately have "(symbol, d) \<in> price_key ` set (batch_records df symbol)"
        by (metis imageI)
      then have "(symbol, d) \<in> price_key ` set (daily_prices db')"
        unfolding facts(2) by (simp add: fold_upsert_keys_eq)
      then show "\<exists>d. r_date r = Stamp d \<and> (symbol, d) \<in> price_key ` set (daily_prices db')"
        using st by blast
    qed
    then show "n = length (rows df) \<and>
      (\<forall>r\<in>set (rows df). \<exists>d. r_date r = Stamp d \<and>
          (symbol, d) \<in> price_key ` set (daily_prices db'))"
      using facts(1) by (rule_tac conjI)
  qed
  have B: "(\<exists>r\<in>set (rows df). ''date'' \<notin> set (columns df) \<or> (\<forall>d. r_date r \<noteq> Stamp d)) \<longrightarrow>
      (\<exists>e. import_daily_prices df symbol now db = Inl e)"
  proof
    assume "\<exists>r\<in>set (rows df). ''date'' \<notin> set (columns df) \<or> (\<forall>d. r_date r \<noteq> Stamp d)"
    then obtain r where r: "r \<in> set (rows df)"
      "''date'' \<notin> set (columns df) \<or> (\<forall>d. r_date r \<noteq> Stamp d)" by blast
    then have "\<forall>d. batch_date df r \<noteq> Some d" unfolding batch_date_Some by blast
    from import_daily_prices_raises[OF r(1) this]
    show "\<exists>e. import_daily_prices df symbol now db = Inl e" .
  qed
  have C: "''date'' \<in> set (columns df) \<and> ''change'' \<notin> set (columns df) \<and>
    (\<forall>r\<in>set (rows df). \<exists>d. r_date r = Stamp d) \<longrightarrow>
      (\<exists>db1. import_daily_prices df symbol now db = Inr (db1, length (rows df)))"
  proof
    assume a: "''date'' \<in> set (columns df) \<and> ''change'' \<notin> set (columns df) \<and>
      (\<forall>r\<in>set (rows df). \<exists>d. r_date r = Stamp d)"
    then have "\<not> (\<exists>r\<in>set (rows df). is_bad (r_date r))" unfolding is_bad_iff by fastforce
    moreover have "\<not> (\<exists>r\<in>set (rows df). batch_date df r = None)"
    proof
      assume "\<exists>r\<in>set (rows df). batch_date df r = None"
      then obtain r where r: "r \<in> set (rows df)" "batch_date df r = None" by blast
      then obtain d where "r_date r = Stamp d" using a by blast
      then have "batch_date df r = Some d" using a by (simp add: batch_date_Some)
      then show False using r(2) by simp
    qed
    ultimately show "\<exists>db1. import_daily_prices df symbol now db = Inr (db1, length (rows df))"
      unfolding import_daily_prices_eq using a by simp
  qed
  show ?thesis by (rule conjI[OF A conjI[OF B C]])
qed

text \<open>
  Claim C4 as stated fails on a batch of ten rows of which two have no parseable date:
  with two unparseable date texts \<^verbatim>\<open>pd.to_datetime\<close> raises, with two missing dates
  SQLite raises on \<^verbatim>\<open>NOT NULL\<close>; in both cases no row is written and no count is
  returned, where the claim has eight rows written and a skip count of two.
\<close>

theorem import_daily_prices_count_counterexample:
  "length (rows df_ten_bad) = 10 \<and>
   import_daily_prices df_ten_bad ''AAA'' ''2024-01-12 00:00:00'' db_empty = Inl DateParseError \<and>
   length (rows df_ten_nat) = 10 \<and>
   import_daily_prices df_ten_nat ''AAA'' ''2024-01-12 00:00:00'' db_empty = Inl IntegrityError"
  unfolding import_daily_prices_eq
  by (simp add: df_ten_bad_def df_ten_nat_def eight_days_def day_row_def bad_row_def nat_row_def
      is_bad_def batch_date_def stamp_of_def)

theorem import_daily_prices_count_witness:
  "import_daily_prices df_eight ''AAA'' ''2024-01-12 00:00:00'' db_empty = Inr (db_eight, 8) \<and>
   8 = length (rows df_eight) \<and>
   (\<exists>d. r_date (day_row 2) = Stamp d \<and> (''AAA'', d) \<in> price_key ` set (daily_prices db_eight)) \<and>
   (\<exists>r\<in>set (rows df_ten_bad). \<exists>s. r_date r = BadDate s) \<and>
   (\<exists>e. import_daily_prices df_ten_bad ''AAA'' ''2024-01-12 00:00:00'' db_empty = Inl e) \<and>
   ''date'' \<in> set (columns df_eight) \<and> ''change'' \<notin> set (columns df_eight) \<and>
   (\<exists>db1. import_daily_prices df_eight ''AAA'' ''2024-01-12 00:00:00'' db_empty = Inr (db1, 8))"
proof -
  have h1: "import_daily_prices df_eight ''AAA'' ''2024-01-12 00:00:00'' db_empty = Inr (db_eight, 8)"
    by (rule import_eight)
  have h2: "\<exists>r\<in>set (rows df_ten_bad). \<exists>s. r_date r = BadDate s"
    by (simp add: df_ten_bad_def bad_row_def)
  then obtain r0 s0 where r0: "r0 \<in> set (rows df_ten_bad)" "r_date r0 = BadDate s0"
    by blast
  then have "\<forall>d. r_date r0 \<noteq> Stamp d" by simp
  then have h2': "\<exists>r\<in>set (rows df_ten_bad).
      ''date'' \<notin> set (columns df_ten_bad) \<or> (\<forall>d. r_date r \<noteq> Stamp d)"
    using r0(1) by blast
  have h3: "''date'' \<in> set (columns df_eight)" "''change'' \<notin> set (columns df_eight)"
    "\<forall>r\<in>set (rows df_eight). \<exists>d. r_date r = Stamp d"
    by (simp_all add: df_eight_def day_row_def)
  have l: "length (rows df_eight) = 8" by (simp add: df_eight_def eight_days_def)
  have r2: "day_row 2 \<in> set (rows df_eight)" by (simp add: df_eight_def eight_days_def)
  note t1 = import_daily_prices_count[of df_eight "''AAA''" "''2024-01-12 00:00:00''" db_empty db_eight 8]
  note t2 = import_daily_prices_count[of df_ten_bad "''AAA''" "''2024-01-12 00:00:00''" db_empty db_eight 8]
  have c1: "8 = length (rows df_eight)"
    "\<exists>d. r_date (day_row 2) = Stamp d \<and> (''AAA'', d) \<in> price_key ` set (daily_prices db_eight)"
    using t1 h1 r2 by blast+
  have c2: "\<exists>e. import_daily_prices df_ten_bad ''AAA'' ''2024-01-12 00:00:00'' db_empty = Inl e"
    using t2 h2' by blast
  have c3: "\<exists>db1. import_daily_prices df_eight ''AAA'' ''2024-01-12 00:00:00'' db_empty = Inr (db1, 8)"
    using t1 h3 l by metis
  show ?thesis
    using h1 c1 h2 c2 h3(1,2) c3 by (intro conjI)
qed





text \<open>
  Claim C6, amended (what \<^verbatim>\<open>import_overview\<close> does to an existing symbol). For a
  frame with a row and a column, \<^verbatim>\<open>import_overview\<close> returns 1 and replaces the
  whole row of the symbol: afterwards the table has a row of the symbol, every row of
  the symbol has the seven overview fields as the first row of the frame gives them
  (NULL for a field the frame does not provide) and a NULL \<^verbatim>\<open>listed_date\<close>; the
  rows of the other symbols and the other tables are as they were.
\<close>

theorem import_overview_replaces:
  assumes "rows df = r # rs" and "columns df \<noteq> []"
  shows "snd (import_overview df symbol now db) = 1 \<and>
     (\<exists>x\<in>set (symbols_table (fst (import_overview df symbol now db))). s_symbol x = symbol) \<and>
     (\<forall>x\<in>set (symbols_table (fst (import_overview df symbol now db))).
        s_symbol x = symbol \<longrightarrow>
          s_name x = row_get df r ''shortName'' \<and>
          s_exchange x = row_get df r ''exchange'' \<and>
          s_industry x = row_get df r ''industry'' \<and>
          s_industry_en x = row_get df r ''industryEn'' \<and>
          s_no_employees x = row_get df r ''noEmployees'' \<and>
          s_foreign_percent x = row_get df r ''foreignPercent'' \<and>
          s_outstanding_shares x = row_get df r ''outstandingShare'' \<and>
          s_listed_date x = None) \<and>
     (\<forall>x. s_symbol x \<noteq> symbol \<longrightarrow>
        (x \<in> set (symbols_table (fst (import_overview df symbol now db))) \<longleftrightarrow>
         x \<in> set (symbols_table db))) \<and>
     daily_prices (fst (import_overview df symbol now db)) = daily_prices db \<and>
     fundamentals_quarterly (fst (import_overview df symbol now db)) = fundamentals_quarterly db"
proof -
  have eq: "import_overview df symbol now db =
      (db\<lparr>symbols_table := replace_symbol (overview_row df r symbol now) (symbols_table db)\<rparr>, 1)"
    using assms by (simp add: import_overview_def frame_empty_def)
  let ?new = "overview_row df r symbol now"
  have sym: "s_symbol ?new = symbol"
    by (simp add: overview_row_def)
  have new: "s_name ?new = row_get df r ''shortName''"
    "s_exchange ?new = row_get df r ''exchange''"
    "s_industry ?new = row_get df r ''industry''"
    "s_industry_en ?new = row_get df r ''industryEn''"
    "s_no_employees ?new = row_get df r ''noEmployees''"
    "s_foreign_percent ?new = row_get df r ''foreignPercent''"
    "s_outstanding_shares ?new = row_get df r ''outstandingShare''"
    "s_listed_date ?new = None"
    by (simp_all add: overview_row_def)
  have mem: "x \<in> set (replace_symbol (overview_row df r symbol now) (symbols_table db)) \<longleftrightarrow>
      x = overview_row df r symbol now \<or> (x \<in> set (symbols_table db) \<and> s_symbol x \<noteq> symbol)" for x
    unfolding replace_symbol_def sym by auto
  let ?t = "replace_symbol ?new (symbols_table db)"
  have 1: "\<exists>x\<in>set ?t. s_symbol x = symbol"
    using mem[of ?new] sym by blast
  have 2: "\<forall>x\<in>set ?t. s_symbol x = symbol \<longrightarrow>
          s_name x = row_get df r ''shortName'' \<and>
          s_exchange x = row_get df r ''exchange'' \<and>
          s_industry x = row_get df r ''industry'' \<and>
          s_industry_en x = row_get df r ''industryEn'' \<and>
          s_no_employees x = row_get df r ''noEmployees'' \<and>
          s_foreign_percent x = row_get df r ''foreignPercent'' \<and>
          s_outstanding_shares x = row_get df r ''outstandingShare'' \<and>
          s_listed_date x = None"
  proof (intro ballI impI)
    fix x assume "x \<in> set ?t" and "s_symbol x = symbol"
    then have "x = ?new" using mem[of x] by blast
    then show "s_name x = row_get df r ''shortName'' \<and>
          s_exchange x = row_get df r ''exchange'' \<and>
          s_industry x = row_get df r ''industry'' \<and>
          s_industry_en x = row_get df r ''industryEn'' \<and>
          s_no_employees x = row_get df r ''noEmployees'' \<and>
          s_foreign_percent x = row_get df r ''foreignPercent'' \<and>
          s_outstanding_shares x = row_get df r ''outstandingShare'' \<and>
          s_listed_date x = None"
      using new by simp
  qed
  have 3: "\<forall>x. s_symbol x \<noteq> symbol \<longrightarrow> (x \<in> set ?t \<longleftrightarrow> x \<in> set (symbols_table db))"
  proof (intro allI impI)
    fix x :: "val symbol_row" assume ne: "s_symbol x \<noteq> symbol"
    then have "x \<noteq> ?new" using sym by auto
    then show "x \<in> set ?t \<longleftrightarrow> x \<in> set (symbols_table db)"
      using mem[of x] ne by simp
  qed
  show ?thesis
    unfolding eq using 1 2 3 by simp
qed

text \<open>
  Claim C6 as stated fails: the symbol had an exchange and a listing date, the frame
  provides the short name only, and after the import both the exchange and the
  listing date are NULL.
\<close>

theorem import_overview_counterexample:
  "map (\<lambda>x. (s_symbol x, s_name x, s_exchange x, s_listed_date x)) (symbols_table db_listed) =
     [(''AAA'', Some (Txt ''Old name''), Some (Txt ''HOSE''), Some (Txt ''2010-01-04''))] \<and>
   map (\<lambda>x. (s_symbol x, s_name x, s_exchange x, s_listed_date x))
     (symbols_table (fst (import_overview df_overview ''AAA'' ''2024-01-12 00:00:00'' db_listed))) =
     [(''AAA'', Some (Txt ''New name''), None, None)]"
  by code_simp

theorem import_overview_replaces_witness:
  "rows df_overview = [hd (rows df_overview)] \<and> columns df_overview \<noteq> [] \<and>
   snd (import_overview df_overview ''AAA'' ''2024-01-12 00:00:00'' db_listed) = 1 \<and>
   (\<exists>x\<in>set (symbols_table (fst (import_overview df_overview ''AAA'' ''2024-01-12 00:00:00'' db_listed))).
      s_symbol x = ''AAA'' \<and> s_name x = Some (Txt ''New name'') \<and> s_listed_date x = None)"
proof -
  have h1: "rows df_overview = hd (rows df_overview) # []" by (simp add: df_overview_def)
  have h2: "columns df_overview \<noteq> []" by (simp add: df_overview_def)
  have g: "row_get df_overview (hd (rows df_overview)) ''shortName'' = Some (Txt ''New name'')"
    by (simp add: df_overview_def row_get_def)
  note t = import_overview_replaces[OF h1 h2, of "''AAA''" "''2024-01-12 00:00:00''" db_listed]
  from t obtain x where
    x: "x \<in> set (symbols_table (fst (import_overview df_overview ''AAA'' ''2024-01-12 00:00:00'' db_listed)))"
      "s_symbol x = ''AAA''" by blast
  with t have "s_name x = row_get df_overview (hd (rows df_overview)) ''shortName''"
    "s_listed_date x = None" by blast+
  then have "\<exists>x\<in>set (symbols_table (fst (import_overview df_overview ''AAA'' ''2024-01-12 00:00:00'' db_listed))).
      s_symbol x = ''AAA'' \<and> s_name x = Some (Txt ''New name'') \<and> s_listed_date x = None"
    using x g by auto
  then show ?thesis using h1 h2 t by (intro conjI) blast+
qed

section \<open>Properties of \<^verbatim>\<open>rank_cross_sectional\<close>\<close>

lemma sorted_block:
  assumes "sorted ys"
  shows "filter (\<lambda>i. ys ! i = v) [0..<length ys] =
         [count_less v ys..<count_less v ys + count_eq v ys]"
  using assms
proof (induction ys)
  case Nil
  then show ?case by (simp add: count_less_def count_eq_def)
next
  case (Cons y ys)
  have srt: "sorted ys" and ge: "\<forall>x\<in>set ys. y \<le> x" using Cons.prems by simp_all
  have split: "filter (\<lambda>i. (y # ys) ! i = v) [0..<length (y # ys)] =
      (if y = v then [0] else []) @ map Suc (filter (\<lambda>i. ys ! i = v) [0..<length ys])"
  proof -
    have "[0..<length (y # ys)] = 0 # map Suc [0..<length ys]"
      by (simp add: upt_conv_Cons map_Suc_upt del: upt_Suc)
    then show ?thesis by (simp add: filter_map comp_def)
  qed
  have ih: "map Suc (filter (\<lambda>i. ys ! i = v) [0..<length ys]) =
      [Suc (count_less v ys)..<Suc (count_less v ys + count_eq v ys)]"
    using Cons.IH[OF srt] by (simp add: map_Suc_upt)
  consider (lt) "y < v" | (eq) "y = v" | (gt) "v < y" by (rule linorder_cases)
  then show ?case
  proof cases
    case lt
    then have "count_less v (y # ys) = Suc (count_less v ys)" "count_eq v (y # ys) = count_eq v ys"
      by (simp_all add: count_less_def count_eq_def)
    then show ?thesis unfolding split ih using lt by simp
  next
    case eq
    have "filter (\<lambda>x. x < v) ys = []" using ge eq by (auto simp: filter_empty_conv)
    then have "count_less v ys = 0" "count_less v (y # ys) = 0"
      "count_eq v (y # ys) = Suc (count_eq v ys)"
      using eq by (simp_all add: count_less_def count_eq_def)
    then show ?thesis unfolding split ih using eq by (simp add: upt_conv_Cons del: upt_Suc)
  next
    case gt
    have "filter (\<lambda>x. x < v) ys = []" "filter (\<lambda>x. x = v) ys = []"
      using ge gt by (auto simp: filter_empty_conv)
    then have "count_less v ys = 0" "count_less v (y # ys) = 0"
      "count_eq v (y # ys) = 0" "count_eq v ys = 0"
      using gt by (simp_all add: count_less_def count_eq_def)
    then show ?thesis unfolding split ih using gt by simp
  qed
qed

lemma count_sort:
  "count_less v (sort xs) = count_less v xs" "count_eq v (sort xs) = count_eq v xs"
  unfolding count_less_def count_eq_def by (simp_all add: filter_sort)

lemma positions_block:
  "positions v xs = [Suc (count_less v xs)..<Suc (count_less v xs + count_eq v xs)]"
proof -
  have "filter (\<lambda>i. sort xs ! i = v) [0..<length (sort xs)] =
        [count_less v xs..<count_less v xs + count_eq v xs]"
    using sorted_block[of "sort xs" v] by (simp add: count_sort)
  then show ?thesis unfolding positions_def by (simp add: map_Suc_upt)
qed

lemma sum_block: "2 * sum_list [Suc l..<Suc (l + e)] = e * (2 * l + e + 1)"
  by (induction e) (simp_all add: algebra_simps)

lemma average_rank_eq:
  assumes "0 < count_eq v xs"
  shows "average_rank v xs = of_nat (count_less v xs) + (of_nat (count_eq v xs) + 1) / 2"
proof -
  let ?l = "count_less v xs" and ?e = "count_eq v xs"
  have len: "length (positions v xs) = ?e" unfolding positions_block by simp
  have "2 * sum_list (positions v xs) = ?e * (2 * ?l + ?e + 1)"
    unfolding positions_block by (rule sum_block)
  then have "(2::rat) * of_nat (sum_list (positions v xs)) = of_nat (?e * (2 * ?l + ?e + 1))"
    by (metis of_nat_mult of_nat_numeral)
  then have "(of_nat (sum_list (positions v xs)) :: rat) = of_nat ?e * (2 * of_nat ?l + of_nat ?e + 1) / 2"
    by (simp add: algebra_simps)
  then show ?thesis
    unfolding average_rank_def len using assms by (simp add: field_simps)
qed

lemma count_bounds:
  "count_less v xs + count_eq v xs \<le> length xs"
proof -
  have "count_less v xs + count_eq v xs = length (filter (\<lambda>x. x \<le> v) xs)"
    unfolding count_less_def count_eq_def by (induction xs) auto
  then show ?thesis by simp
qed

lemma count_eq_pos: "v \<in> set xs \<Longrightarrow> 0 < count_eq v xs"
  unfolding count_eq_def by (simp add: filter_empty_conv)

lemma rank_bounds:
  assumes "v \<in> set xs"
  shows "0 < average_rank v xs / of_nat (length xs)"
    and "average_rank v xs / of_nat (length xs) \<le> 1"
proof -
  let ?l = "count_less v xs" and ?e = "count_eq v xs" and ?n = "length xs"
  have e: "0 < ?e" using assms by (rule count_eq_pos)
  have n: "0 < ?n" using assms by (cases xs) auto
  have le: "?l + ?e \<le> ?n" by (rule count_bounds)
  have avg: "average_rank v xs = of_nat ?l + (of_nat ?e + 1) / 2"
    using e by (rule average_rank_eq)
  have "(of_nat ?e + 1) / 2 \<le> (of_nat ?e :: rat)"
    using e by (simp add: field_simps)
  moreover have "(of_nat ?l + of_nat ?e :: rat) \<le> of_nat ?n"
    using le by (metis of_nat_add of_nat_mono)
  ultimately have up: "average_rank v xs \<le> of_nat ?n" unfolding avg by linarith
  have lo: "0 < average_rank v xs" unfolding avg
    by (simp add: add_nonneg_pos)
  show "0 < average_rank v xs / of_nat ?n" using lo n by simp
  show "average_rank v xs / of_nat ?n \<le> 1" using up n by (simp add: field_simps)
qed

text \<open>The rank column, row by row.\<close>

lemma group_values_mem:
  assumes "i < length dates" and "length vals = length dates" and "vals ! i = Some v"
  shows "v \<in> set (group_values dates vals (dates ! i))"
proof -
  have "i < length (zip dates vals)" using assms by simp
  then have "zip dates vals ! i \<in> set (zip dates vals)" by (rule nth_mem)
  moreover have "zip dates vals ! i = (dates ! i, Some v)" using assms by simp
  ultimately have m: "(dates ! i, Some v) \<in> set (zip dates vals)" by simp
  show ?thesis unfolding group_values_def set_concat set_map
    by (rule UN_I[OF imageI[OF m]]) simp
qed

lemma rank_pct_length:
  "length vals = length dates \<Longrightarrow> length (rank_pct dates vals) = length vals"
  by (simp add: rank_pct_def)

lemma rank_pct_nth:
  assumes "i < length dates" and "length vals = length dates"
  shows "rank_pct dates vals ! i =
     (case vals ! i of
        None \<Rightarrow> None
      | Some v \<Rightarrow> Some (average_rank v (group_values dates vals (dates ! i)) /
                        of_nat (length (group_values dates vals (dates ! i)))))"
  using assms by (simp add: rank_pct_def)

lemma group_values_length:
  "length (group_values dates vals d) \<le> group_size dates d"
  unfolding group_values_def group_size_def
proof (induction dates arbitrary: vals)
  case Nil
  then show ?case by simp
next
  case (Cons a dates)
  show ?case
  proof (cases vals)
    case Nil
    then show ?thesis by simp
  next
    case (Cons x xs)
    then show ?thesis using Cons.IH[of xs] by (auto split: option.splits)
  qed
qed

lemma group_values_full:
  assumes "length vals = length dates"
    and "\<forall>i<length dates. dates ! i = d \<longrightarrow> vals ! i \<noteq> None"
  shows "length (group_values dates vals d) = group_size dates d"
  using assms unfolding group_values_def group_size_def
proof (induction dates arbitrary: vals)
  case Nil
  then show ?case by simp
next
  case (Cons a dates)
  then obtain x xs where vals: "vals = x # xs" by (cases vals) auto
  have len: "length xs = length dates" using Cons.prems(1) vals by simp
  have rest: "\<forall>i<length dates. dates ! i = d \<longrightarrow> xs ! i \<noteq> None"
    using Cons.prems(2) vals by auto
  have hd: "a = d \<longrightarrow> x \<noteq> None" using Cons.prems(2) vals by auto
  show ?case unfolding vals using Cons.IH[OF len rest] hd by (auto split: option.splits)
qed

lemma count_less_strict:
  assumes "v < w" and "v \<in> set xs"
  shows "count_less v xs < count_less w xs"
proof -
  have "filter (\<lambda>x. x < v) xs = filter (\<lambda>x. x < v) (filter (\<lambda>x. x < w) xs)"
    using assms(1) by (auto intro: filter_cong)
  moreover have "v \<in> set (filter (\<lambda>x. x < w) xs)" using assms by simp
  then have "length (filter (\<lambda>x. x < v) (filter (\<lambda>x. x < w) xs)) < length (filter (\<lambda>x. x < w) xs)"
    by (rule length_filter_less) simp
  ultimately show ?thesis unfolding count_less_def by simp
qed

lemma count_less_inj: "inj_on (\<lambda>v. count_less v xs) (set xs)"
proof (rule inj_onI)
  fix v w assume v: "v \<in> set xs" and w: "w \<in> set xs"
    and eq: "count_less v xs = count_less w xs"
  show "v = w"
  proof (rule ccontr)
    assume "v \<noteq> w"
    then consider "v < w" | "w < v" by (auto simp: neq_iff)
    then show False
      using count_less_strict[of v w xs] count_less_strict[of w v xs] v w eq by cases auto
  qed
qed

lemma count_less_range:
  assumes "distinct xs"
  shows "(\<lambda>v. count_less v xs) ` set xs = {0..<length xs}"
proof (rule card_subset_eq)
  show "finite {0..<length xs}" by simp
  show "(\<lambda>v. count_less v xs) ` set xs \<subseteq> {0..<length xs}"
  proof
    fix k assume "k \<in> (\<lambda>v. count_less v xs) ` set xs"
    then obtain v where v: "v \<in> set xs" "k = count_less v xs" by blast
    have "0 < count_eq v xs" using v(1) by (rule count_eq_pos)
    then have "count_less v xs < length xs" using count_bounds[of v xs] by simp
    then show "k \<in> {0..<length xs}" using v(2) by simp
  qed
  show "card ((\<lambda>v. count_less v xs) ` set xs) = card {0..<length xs}"
    using card_image[OF count_less_inj[of xs]] distinct_card[OF assms] by simp
qed

lemma count_eq_distinct:
  assumes "distinct xs" and "v \<in> set xs"
  shows "count_eq v xs = 1"
proof -
  have "{x. x = v} \<inter> set xs = {v}" using assms(2) by auto
  then show ?thesis
    unfolding count_eq_def using distinct_length_filter[OF assms(1), of "\<lambda>x. x = v"] by simp
qed

lemma distinct_rank:
  assumes "distinct xs" and "v \<in> set xs"
  shows "average_rank v xs = of_nat (Suc (count_less v xs))"
  using average_rank_eq[of v xs] count_eq_distinct[OF assms] by simp

lemma distinct_rank_set:
  assumes "distinct xs"
  shows "(\<lambda>v. average_rank v xs / of_nat (length xs)) ` set xs =
         (\<lambda>k. of_nat k / of_nat (length xs)) ` {1..length xs}"
proof -
  have "(\<lambda>v. average_rank v xs / of_nat (length xs)) ` set xs =
        (\<lambda>v. of_nat (Suc (count_less v xs)) / of_nat (length xs)) ` set xs"
    using distinct_rank[OF assms] by (intro image_cong) simp_all
  also have "\<dots> = (\<lambda>k. of_nat (Suc k) / of_nat (length xs)) ` ((\<lambda>v. count_less v xs) ` set xs)"
    by (simp only: image_image)
  also have "\<dots> = (\<lambda>k. of_nat (Suc k) / of_nat (length xs)) ` {0..<length xs}"
    unfolding count_less_range[OF assms] ..
  also have "\<dots> = (\<lambda>k. of_nat k / of_nat (length xs)) ` (Suc ` {0..<length xs})"
    by (simp only: image_image)
  also have "Suc ` {0..<length xs} = {1..length xs}"
    by (simp only: image_Suc_atLeastLessThan atLeastLessThanSuc_atLeastAtMost One_nat_def)
  finally show ?thesis .
qed

lemma group_values_set:
  assumes "length vals = length dates"
  shows "set (group_values dates vals d) =
         {v. \<exists>i<length dates. dates ! i = d \<and> vals ! i = Some v}"
proof
  show "set (group_values dates vals d) \<subseteq> {v. \<exists>i<length dates. dates ! i = d \<and> vals ! i = Some v}"
  proof
    fix v assume "v \<in> set (group_values dates vals d)"
    then obtain d' x where m: "(d', x) \<in> set (zip dates vals)"
      and v: "v \<in> set (case x of Some v \<Rightarrow> (if d' = d then [v] else []) | None \<Rightarrow> [])"
      unfolding group_values_def by auto
    from v have "x = Some v" "d' = d" by (auto split: option.splits if_splits)
    moreover from m obtain i where "i < length dates" "dates ! i = d'" "vals ! i = x"
      using assms by (auto simp: in_set_zip)
    ultimately show "v \<in> {v. \<exists>i<length dates. dates ! i = d \<and> vals ! i = Some v}" by blast
  qed
  show "{v. \<exists>i<length dates. dates ! i = d \<and> vals ! i = Some v} \<subseteq> set (group_values dates vals d)"
    using group_values_mem[OF _ assms] by blast
qed

lemma singleton_rank:
  assumes "v \<in> set xs" and "length xs \<le> 1"
  shows "average_rank v xs / of_nat (length xs) = 1"
proof -
  from assms have xs: "xs = [v]" by (cases xs) auto
  have "count_less v [v] = 0" "count_eq v [v] = 1" by (simp_all add: count_less_def count_eq_def)
  then have "average_rank v [v] = 1" using average_rank_eq[of v "[v]"] by simp
  then show ?thesis unfolding xs by simp
qed

lemma set_col_index [simp]: "df_index (set_col df c new) = df_index df"
  by (simp add: set_col_def)

lemma map_of_overwrite:
  "map_of (map (\<lambda>(k, old). if k = c then (k, new) else (k, old)) xs) c' =
   (if c' = c then (if c \<in> fst ` set xs then Some new else None) else map_of xs c')"
  by (induction xs) (auto simp: rev_image_eqI)

lemma set_col_same: "map_of (df_cols (set_col df c new)) c = Some new"
proof (cases "c \<in> fst ` set (df_cols df)")
  case True
  then show ?thesis by (simp add: set_col_def map_of_overwrite)
next
  case False
  then have "map_of (df_cols df) c = None" by (simp add: map_of_eq_None_iff)
  then show ?thesis using False by (simp add: set_col_def map_add_def)
qed

lemma set_col_other: "c' \<noteq> c \<Longrightarrow> map_of (df_cols (set_col df c new)) c' = map_of (df_cols df) c'"
  unfolding set_col_def
  by (auto simp: map_of_overwrite map_add_def split: option.splits)

lemma rank_cross_sectional_single:
  assumes "map_of (df_cols df) c = Some vals"
  shows "rank_cross_sectional df [c] =
         set_col df (c @ ''_rank'') (rank_pct (map fst (df_index df)) vals)"
  using assms by (simp add: rank_cross_sectional_def)

text \<open>
  Claim C8, amended (the cross-sectional rank). Let \<open>c\<close> be a column of the table, as
  long as the index, and let the table be ranked on \<open>c\<close>. Then the result has the column
  \<open>c_rank\<close>, as long as the table, and in it: a row whose value is missing has no rank;
  a row with a value has a rank in (0, 1], namely (L + (E + 1) / 2) / N, where among the
  N non-null values of the row's date L are smaller and E are equal to the row's value,
  so that tied values get the mean of the ranks L + 1, ..., L + E that they occupy,
  divided by N; in a date group whose values are all present and distinct, the ranks
  are exactly 1/N, 2/N, ..., N/N, with N the size of the group; a non-null value alone
  on its date has rank 1. The index is as it was, and every column is as it was, apart
  from a column that was already named \<open>c_rank\<close>, which is overwritten.
\<close>

theorem rank_cross_sectional_ranks:
  assumes col: "map_of (df_cols df) c = Some vals"
    and len: "length vals = length (df_index df)"
    and dates: "dates = map fst (df_index df)"
    and out: "out = rank_cross_sectional df [c]"
  shows "\<exists>ranks.
     map_of (df_cols out) (c @ ''_rank'') = Some ranks \<and>
     length ranks = length vals \<and>
     (\<forall>i<length vals. vals ! i = None \<longrightarrow> ranks ! i = None) \<and>
     (\<forall>i<length vals. \<forall>v. vals ! i = Some v \<longrightarrow>
        (\<exists>r. ranks ! i = Some r \<and> 0 < r \<and> r \<le> 1 \<and>
           r = (of_nat (count_less v (group_values dates vals (dates ! i))) +
                (of_nat (count_eq v (group_values dates vals (dates ! i))) + 1) / 2) /
               of_nat (length (group_values dates vals (dates ! i))))) \<and>
     (\<forall>d\<in>set dates.
        (\<forall>i<length vals. dates ! i = d \<longrightarrow> vals ! i \<noteq> None) \<and>
        distinct (group_values dates vals d) \<longrightarrow>
        {r. \<exists>i<length vals. dates ! i = d \<and> ranks ! i = Some r} =
        (\<lambda>k. of_nat k / of_nat (group_size dates d)) ` {1..group_size dates d}) \<and>
     (\<forall>i<length vals. vals ! i \<noteq> None \<and> group_size dates (dates ! i) = 1 \<longrightarrow>
        ranks ! i = Some 1) \<and>
     df_index out = df_index df \<and>
     (\<forall>c'. c' \<noteq> c @ ''_rank'' \<longrightarrow> map_of (df_cols out) c' = map_of (df_cols df) c')"
proof -
  let ?ranks = "rank_pct dates vals"
  let ?g = "\<lambda>d. group_values dates vals d"
  have lenD: "length vals = length dates" using len dates by simp
  have outeq: "out = set_col df (c @ ''_rank'') ?ranks"
    unfolding out dates by (rule rank_cross_sectional_single[OF col])
  have nth: "\<And>i. i < length vals \<Longrightarrow> ?ranks ! i =
     (case vals ! i of None \<Rightarrow> None
      | Some v \<Rightarrow> Some (average_rank v (?g (dates ! i)) / of_nat (length (?g (dates ! i)))))"
    using rank_pct_nth[OF _ lenD] lenD by simp
  have P1: "map_of (df_cols out) (c @ ''_rank'') = Some ?ranks"
    unfolding outeq by (rule set_col_same)
  have P2: "length ?ranks = length vals" by (rule rank_pct_length[OF lenD])
  have P3: "\<forall>i<length vals. vals ! i = None \<longrightarrow> ?ranks ! i = None"
    using nth by simp
  have P4: "\<forall>i<length vals. \<forall>v. vals ! i = Some v \<longrightarrow>
        (\<exists>r. ?ranks ! i = Some r \<and> 0 < r \<and> r \<le> 1 \<and>
           r = (of_nat (count_less v (?g (dates ! i))) +
                (of_nat (count_eq v (?g (dates ! i))) + 1) / 2) /
               of_nat (length (?g (dates ! i))))"
  proof (intro allI impI)
    fix i v assume i: "i < length vals" and v: "vals ! i = Some v"
    have mem: "v \<in> set (?g (dates ! i))"
      using group_values_mem[OF _ lenD v] i lenD by simp
    have r: "?ranks ! i = Some (average_rank v (?g (dates ! i)) / of_nat (length (?g (dates ! i))))"
      using nth[OF i] v by simp
    have eq: "average_rank v (?g (dates ! i)) =
        of_nat (count_less v (?g (dates ! i))) + (of_nat (count_eq v (?g (dates ! i))) + 1) / 2"
      by (rule average_rank_eq[OF count_eq_pos[OF mem]])
    show "\<exists>r. ?ranks ! i = Some r \<and> 0 < r \<and> r \<le> 1 \<and>
           r = (of_nat (count_less v (?g (dates ! i))) +
                (of_nat (count_eq v (?g (dates ! i))) + 1) / 2) /
               of_nat (length (?g (dates ! i)))"
      using r rank_bounds[OF mem] eq by simp
  qed
  have P5: "\<forall>d\<in>set dates.
        (\<forall>i<length vals. dates ! i = d \<longrightarrow> vals ! i \<noteq> None) \<and> distinct (?g d) \<longrightarrow>
        {r. \<exists>i<length vals. dates ! i = d \<and> ?ranks ! i = Some r} =
        (\<lambda>k. of_nat k / of_nat (group_size dates d)) ` {1..group_size dates d}"
  proof (intro ballI impI)
    fix d assume "d \<in> set dates"
      and a: "(\<forall>i<length vals. dates ! i = d \<longrightarrow> vals ! i \<noteq> None) \<and> distinct (?g d)"
    then have full: "\<forall>i<length dates. dates ! i = d \<longrightarrow> vals ! i \<noteq> None"
      and dist: "distinct (?g d)" using lenD by simp_all
    have size: "length (?g d) = group_size dates d"
      by (rule group_values_full[OF lenD full])
    have "{r. \<exists>i<length vals. dates ! i = d \<and> ?ranks ! i = Some r} =
          (\<lambda>v. average_rank v (?g d) / of_nat (length (?g d))) ` set (?g d)"
    proof (intro set_eqI iffI)
      fix r assume "r \<in> {r. \<exists>i<length vals. dates ! i = d \<and> ?ranks ! i = Some r}"
      then obtain i where i: "i < length vals" "dates ! i = d" "?ranks ! i = Some r" by blast
      then obtain v where v: "vals ! i = Some v" using full lenD by fastforce
      have "v \<in> set (?g d)" using group_values_mem[OF _ lenD v] i lenD by auto
      moreover have "r = average_rank v (?g d) / of_nat (length (?g d))"
        using nth[OF i(1)] v i(2,3) by simp
      ultimately show "r \<in> (\<lambda>v. average_rank v (?g d) / of_nat (length (?g d))) ` set (?g d)"
        by blast
    next
      fix r assume "r \<in> (\<lambda>v. average_rank v (?g d) / of_nat (length (?g d))) ` set (?g d)"
      then obtain v where v: "v \<in> set (?g d)"
        "r = average_rank v (?g d) / of_nat (length (?g d))" by blast
      then obtain i where i: "i < length dates" "dates ! i = d" "vals ! i = Some v"
        unfolding group_values_set[OF lenD] by blast
      then have "?ranks ! i = Some r" using nth[of i] lenD v(2) by simp
      then show "r \<in> {r. \<exists>i<length vals. dates ! i = d \<and> ?ranks ! i = Some r}"
        using i lenD by auto
    qed
    then show "{r. \<exists>i<length vals. dates ! i = d \<and> ?ranks ! i = Some r} =
        (\<lambda>k. of_nat k / of_nat (group_size dates d)) ` {1..group_size dates d}"
      using distinct_rank_set[OF dist] size by simp
  qed
  have P6: "\<forall>i<length vals. vals ! i \<noteq> None \<and> group_size dates (dates ! i) = 1 \<longrightarrow>
        ?ranks ! i = Some 1"
  proof (intro allI impI)
    fix i assume i: "i < length vals"
      and a: "vals ! i \<noteq> None \<and> group_size dates (dates ! i) = 1"
    then obtain v where v: "vals ! i = Some v" by auto
    have mem: "v \<in> set (?g (dates ! i))"
      using group_values_mem[OF _ lenD v] i lenD by simp
    have "length (?g (dates ! i)) \<le> 1"
      using group_values_length[of dates vals "dates ! i"] a by simp
    from singleton_rank[OF mem this]
    have one: "average_rank v (?g (dates ! i)) / of_nat (length (?g (dates ! i))) = 1" .
    have "?ranks ! i = Some (average_rank v (?g (dates ! i)) / of_nat (length (?g (dates ! i))))"
      using nth[OF i] v by simp
    then show "?ranks ! i = Some 1" by (simp only: one)
  qed
  have P7: "df_index out = df_index df" unfolding outeq by simp
  have P8: "\<forall>c'. c' \<noteq> c @ ''_rank'' \<longrightarrow> map_of (df_cols out) c' = map_of (df_cols df) c'"
    unfolding outeq by (simp add: set_col_other)
  show ?thesis
    using P1 P2 P3 P4 P5 P6 P7 P8 by (intro exI[of _ ?ranks] conjI)
qed

text \<open>
  Claim C8 as stated fails in its last part: a table that already has a column
  \<^verbatim>\<open>pe_rank\<close> does not keep it when \<^verbatim>\<open>pe\<close> is ranked.
\<close>

theorem rank_cross_sectional_counterexample:
  "map_of (df_cols df_clash) ''pe_rank'' = Some [Some 7, Some 7] \<and>
   map_of (df_cols (rank_cross_sectional df_clash [''pe''])) ''pe_rank'' =
     Some [Some (1 / 2), Some 1]"
  by code_simp

theorem rank_cross_sectional_ranks_witness:
  "map_of (df_cols df_rank) ''pe'' = Some [Some 5, Some 3, Some 5, None, Some 8] \<and>
   length [Some 5, Some 3, Some 5, None, Some (8::rat)] = length (df_index df_rank) \<and>
   (\<exists>ranks.
      map_of (df_cols (rank_cross_sectional df_rank [''pe''])) ''pe_rank'' = Some ranks \<and>
      length ranks = 5 \<and>
      (\<exists>r. ranks ! 0 = Some r \<and> 0 < r \<and> r \<le> 1) \<and>
      ranks ! 3 = None \<and> ranks ! 4 = Some 1) \<and>
   map_of (df_cols (rank_cross_sectional df_rank [''pe''])) ''pe'' =
     map_of (df_cols df_rank) ''pe''"
proof -
  let ?vals = "[Some 5, Some 3, Some 5, None, Some (8::rat)]"
  let ?dates = "map fst (df_index df_rank)"
  have h1: "map_of (df_cols df_rank) ''pe'' = Some ?vals" by (simp add: df_rank_def)
  have h2: "length ?vals = length (df_index df_rank)" by (simp add: df_rank_def)
  have g: "group_size ?dates (?dates ! 4) = 1" by (simp add: df_rank_def group_size_def)
  from rank_cross_sectional_ranks[OF h1 h2 refl refl]
  obtain ranks where r:
    "map_of (df_cols (rank_cross_sectional df_rank [''pe''])) (''pe'' @ ''_rank'') = Some ranks \<and>
    length ranks = length ?vals \<and>
    (\<forall>i<length ?vals. ?vals ! i = None \<longrightarrow> ranks ! i = None) \<and>
    (\<forall>i<length ?vals. \<forall>v. ?vals ! i = Some v \<longrightarrow>
        (\<exists>r. ranks ! i = Some r \<and> 0 < r \<and> r \<le> 1 \<and>
           r = (of_nat (count_less v (group_values ?dates ?vals (?dates ! i))) +
                (of_nat (count_eq v (group_values ?dates ?vals (?dates ! i))) + 1) / 2) /
               of_nat (length (group_values ?dates ?vals (?dates ! i))))) \<and>
    (\<forall>d\<in>set ?dates.
        (\<forall>i<length ?vals. ?dates ! i = d \<longrightarrow> ?vals ! i \<noteq> None) \<and>
        distinct (group_values ?dates ?vals d) \<longrightarrow>
        {r. \<exists>i<length ?vals. ?dates ! i = d \<and> ranks ! i = Some r} =
        (\<lambda>k. of_nat k / of_nat (group_size ?dates d)) ` {1..group_size ?dates d}) \<and>
    (\<forall>i<length ?vals. ?vals ! i \<noteq> None \<and> group_size ?dates (?dates ! i) = 1 \<longrightarrow>
        ranks ! i = Some 1) \<and>
    df_index (rank_cross_sectional df_rank [''pe'']) = df_index df_rank \<and>
    (\<forall>c'. c' \<noteq> ''pe'' @ ''_rank'' \<longrightarrow>
        map_of (df_cols (rank_cross_sectional df_rank [''pe''])) c' = map_of (df_cols df_rank) c')"
    ..
  note r1 = r[THEN conjunct1]
  note r2 = r[THEN conjunct2, THEN conjunct1]
  note r3 = r[THEN conjunct2, THEN conjunct2, THEN conjunct1]
  note r4 = r[THEN conjunct2, THEN conjunct2, THEN conjunct2, THEN conjunct1]
  note r6 = r[THEN conjunct2, THEN conjunct2, THEN conjunct2, THEN conjunct2, THEN conjunct2,
      THEN conjunct1]
  note r8 = r[THEN conjunct2, THEN conjunct2, THEN conjunct2, THEN conjunct2, THEN conjunct2,
      THEN conjunct2, THEN conjunct2]
  have c1: "map_of (df_cols (rank_cross_sectional df_rank [''pe''])) ''pe_rank'' = Some ranks"
    using r1 by simp
  have c2: "length ranks = 5" using r2 by simp
  have p0: "0 < length ?vals" "?vals ! 0 = Some 5" by simp_all
  from r4[rule_format, OF p0] obtain q where "ranks ! 0 = Some q" "0 < q" "q \<le> 1" by blast
  then have c3: "\<exists>r. ranks ! 0 = Some r \<and> 0 < r \<and> r \<le> 1" by blast
  have p3: "3 < length ?vals" "?vals ! 3 = None" by simp_all
  have c4: "ranks ! 3 = None" by (rule r3[rule_format, OF p3])
  have p4: "4 < length ?vals" "?vals ! 4 \<noteq> None \<and> group_size ?dates (?dates ! 4) = 1"
    using g by simp_all
  have c5: "ranks ! 4 = Some 1" by (rule r6[rule_format, OF p4])
  have p8: "''pe'' \<noteq> ''pe'' @ ''_rank''" by simp
  have c6: "map_of (df_cols (rank_cross_sectional df_rank [''pe''])) ''pe'' =
     map_of (df_cols df_rank) ''pe''"
    by (rule r8[rule_format, OF p8])
  show ?thesis using h1 h2 c1 c2 c3 c4 c5 c6 by (intro conjI exI[of _ ranks])
qed

section \<open>Properties of \<^verbatim>\<open>compute_volatility\<close>\<close>

lemma pad_length [simp]: "length (pad prev xs) = length xs"
  by (induction xs arbitrary: prev) (auto split: option.splits)

lemma pct_change_length [simp]: "length (pct_change fill ps) = length ps"
proof -
  have "length (case qs of [] \<Rightarrow> [] | q # rest \<Rightarrow> None # map (\<lambda>(a, b). ratio a b) (zip qs rest))
        = length qs" for qs :: "real option list"
    by (cases qs) simp_all
  then show ?thesis unfolding pct_change_def Let_def by simp
qed

lemma pct_change_first: "ps \<noteq> [] \<Longrightarrow> pct_change fill ps ! 0 = None"
proof -
  assume "ps \<noteq> []"
  then have "(if fill then pad None ps else ps) \<noteq> []"
    by (metis length_0_conv pad_length)
  then obtain q rest where "(if fill then pad None ps else ps) = q # rest"
    by (cases "if fill then pad None ps else ps") auto
  then show ?thesis unfolding pct_change_def Let_def by simp
qed

lemma rolling_std_length [simp]: "length (rolling_std w rs) = length rs"
  by (simp add: rolling_std_def)

lemma volatility_length: "length (volatility fill w ps) = length ps"
  by (simp add: volatility_def)

lemma those_None: "None \<in> set xs \<Longrightarrow> those xs = None"
  by (induction xs) (auto split: option.splits)

lemma those_map_Some: "those (map Some xs) = Some xs"
  by (induction xs) simp_all

lemma rolling_std_early:
  assumes "t < length rs" and "t < w" and "rs ! 0 = None"
  shows "rolling_std w rs ! t = None"
proof (cases "Suc t < w")
  case True
  then show ?thesis using assms(1) by (simp add: rolling_std_def)
next
  case False
  then have w: "w = Suc t" using assms(2) by simp
  have "window w rs t = take w rs" by (simp add: window_def w)
  moreover have "rs ! 0 \<in> set (take w rs)"
    using assms(1) w by (metis length_take min.absorb2 Suc_leI nth_mem nth_take zero_less_Suc)
  ultimately have "those (window w rs t) = None" using assms(3) those_None by metis
  then show ?thesis using assms(1) by (simp add: rolling_std_def)
qed

lemma volatility_early:
  assumes "t < length ps" and "t < w"
  shows "volatility fill w ps ! t = None"
proof -
  have "ps \<noteq> []" using assms(1) by auto
  then have "pct_change fill ps ! 0 = None" by (rule pct_change_first)
  then have "rolling_std w (pct_change fill ps) ! t = None"
    using rolling_std_early[of t "pct_change fill ps" w] assms by simp
  then show ?thesis using assms(1) by (simp add: volatility_def)
qed

lemma pad_map_Some: "pad prev (map Some xs) = map Some xs"
  by (induction xs arbitrary: prev) simp_all

lemma pct_change_full:
  assumes "0 \<notin> set xs" and "k < length xs" and "0 < k"
  shows "pct_change fill (map Some xs) ! k = Some (xs ! k / xs ! (k - 1) - 1)"
proof -
  obtain x xs' where xs: "xs = x # xs'" using assms(2) by (cases xs) auto
  obtain j where k: "k = Suc j" using assms(3) by (cases k) auto
  have j: "j < length xs'" using assms(2) xs k by simp
  have nz: "xs ! j \<noteq> 0" using assms(1,2) k by (metis Suc_lessD nth_mem)
  have "pct_change fill (map Some xs) =
        None # map (\<lambda>(a, b). ratio a b) (zip (map Some xs) (map Some xs'))"
    unfolding pct_change_def Let_def pad_map_Some by (simp add: xs)
  moreover have jx: "j < length xs" using j xs by simp
  ultimately have "pct_change fill (map Some xs) ! k =
        ratio (Some (xs ! j)) (Some (xs' ! j))"
    using j k by simp
  also have "\<dots> = Some (xs' ! j / xs ! j - 1)" using nz by (simp add: ratio_def)
  finally show ?thesis using k xs by simp
qed

lemma window_nth:
  assumes "w \<le> Suc t" and "t < length rs"
  shows "window w rs t = map (\<lambda>k. rs ! k) [Suc t - w..<Suc t]"
proof (rule nth_equalityI)
  show "length (window w rs t) = length (map (\<lambda>k. rs ! k) [Suc t - w..<Suc t])"
    using assms by (simp add: window_def) arith
next
  fix i assume "i < length (window w rs t)"
  then have i: "i < w" using assms by (simp add: window_def)
  have lt: "Suc t - w + i < Suc t" using i assms(1) by arith
  have a: "window w rs t ! i = rs ! (Suc t - w + i)"
    using i lt assms(2) by (simp add: window_def)
  have "i < length [Suc t - w..<Suc t]" using i assms(1) by (simp del: upt_Suc)
  then have "map (\<lambda>k. rs ! k) [Suc t - w..<Suc t] ! i = rs ! ([Suc t - w..<Suc t] ! i)"
    by (rule nth_map)
  also have "[Suc t - w..<Suc t] ! i = Suc t - w + i" using lt by (rule nth_upt)
  finally show "window w rs t ! i = map (\<lambda>k. rs ! k) [Suc t - w..<Suc t] ! i"
    using a by simp
qed

lemma rolling_std_full:
  assumes "0 \<notin> set xs" and "t < length xs" and "w \<le> t" and "2 \<le> w"
  shows "rolling_std w (pct_change fill (map Some xs)) ! t =
         Some (sample_std (returns_between xs (Suc t - w) (Suc t)))"
proof -
  let ?rs = "pct_change fill (map Some xs)"
  have len: "length ?rs = length xs" by simp
  have "window w ?rs t = map (\<lambda>k. ?rs ! k) [Suc t - w..<Suc t]"
    using assms(2,3) len by (intro window_nth) simp_all
  also have "\<dots> = map (\<lambda>k. Some (xs ! k / xs ! (k - 1) - 1)) [Suc t - w..<Suc t]"
  proof (rule map_cong[OF refl])
    fix k assume "k \<in> set [Suc t - w..<Suc t]"
    then have "0 < k" "k < length xs" using assms(2,3) by auto
    then show "?rs ! k = Some (xs ! k / xs ! (k - 1) - 1)"
      using pct_change_full[OF assms(1)] by simp
  qed
  also have "\<dots> = map Some (returns_between xs (Suc t - w) (Suc t))"
    by (simp add: returns_between_def)
  finally have "those (window w ?rs t) = Some (returns_between xs (Suc t - w) (Suc t))"
    by (simp add: those_map_Some)
  moreover have "length (returns_between xs (Suc t - w) (Suc t)) = w"
    using assms(3) by (simp add: returns_between_def) arith
  ultimately show ?thesis
    using assms(2,3,4) by (simp add: rolling_std_def)
qed

lemma volatility_full:
  assumes "0 \<notin> set xs" and "t < length xs" and "w \<le> t" and "2 \<le> w"
  shows "volatility fill w (map Some xs) ! t =
         Some (sample_std (returns_between xs (Suc t - w) (Suc t)) * sqrt 252)"
  using rolling_std_full[OF assms] assms(2) by (simp add: volatility_def)

subsection \<open>The matrix\<close>

lemma set_column_map_of:
  "map_of (set_column k v cs) k' = (if k' = k then Some v else map_of cs k')"
  by (induction cs) auto

lemma set_column_keys: "fst ` set (set_column k v cs) = insert k (fst ` set cs)"
  by (induction cs) auto

lemma fold_set_column_map_of:
  "map_of (fold (\<lambda>w r. set_column w (g w) r) ws result) k =
   (if k \<in> set ws then Some (g k) else map_of result k)"
  by (induction ws arbitrary: result) (simp_all add: set_column_map_of)

lemma fold_set_column_keys:
  "fst ` set (fold (\<lambda>w r. set_column w (g w) r) ws result) = set ws \<union> fst ` set result"
  by (induction ws arbitrary: result) (simp_all add: set_column_keys)

lemma vol_loop_values:
  assumes "\<And>w. vol_column fill strict idx cols w = Inr (g w)"
  shows "vol_loop fill strict idx cols ws result =
         Inr (fold (\<lambda>w r. set_column w (g w) r) ws result)"
  by (induction ws arbitrary: result) (simp_all add: assms)

lemma vol_loop_raises:
  assumes "\<And>w. vol_column fill strict idx cols w = Inl e" and "ws \<noteq> []"
  shows "vol_loop fill strict idx cols ws result = Inl e"
  using assms(2) by (cases ws) (simp_all add: assms(1))

lemma vol_column_single:
  "vol_column fill strict idx [(s, ps)] w = Inr (volatility fill w ps)"
  by (simp add: vol_column_def)

text \<open>No entry of a stacked series has the label of a row.\<close>

lemma stacked_not_found:
  "map_of (map (\<lambda>((d', s), x). (Stacked d' s, x)) series) (Row d) = None"
  by (induction series) auto

lemma assign_stacked_eq:
  "assign_stacked strict idx series =
   (if strict \<and> idx \<noteq> [] then Inl TypeError else Inr (map (\<lambda>d. None) idx))"
  by (cases idx) (simp_all add: assign_stacked_def stacked_not_found)

lemma vol_column_stacked:
  assumes "1 < length cols"
  shows "vol_column fill strict idx cols w =
         (if strict \<and> idx \<noteq> [] then Inl TypeError else Inr (map (\<lambda>d. None) idx))"
  using assms by (simp add: vol_column_def assign_stacked_eq)

lemma compute_volatility_single:
  assumes "symbol_columns column (mx_columns prices) = Inr [(s, ps)]"
  shows "compute_volatility fill strict prices windows column =
         Inr \<lparr>vf_index = mx_index prices,
              vf_columns = fold (\<lambda>w r. set_column w (volatility fill w ps) r) windows []\<rparr>"
  using assms vol_loop_values[of fill strict "mx_index prices" "[(s, ps)]"
      "\<lambda>w. volatility fill w ps" windows "[]", OF vol_column_single]
  by (simp add: compute_volatility_def)

lemma compute_volatility_stacked_strict:
  assumes "symbol_columns column (mx_columns prices) = Inr cols" and "1 < length cols"
    and "mx_index prices \<noteq> []" and "windows \<noteq> []"
  shows "compute_volatility fill True prices windows column = Inl TypeError"
proof -
  have "vol_column fill True (mx_index prices) cols w = Inl TypeError" for w
    by (simp add: vol_column_stacked[OF assms(2), of fill True "mx_index prices" w] assms(3))
  then have "vol_loop fill True (mx_index prices) cols windows [] = Inl TypeError"
    using assms(4) by (rule vol_loop_raises)
  then show ?thesis using assms(1) by (simp add: compute_volatility_def)
qed

lemma compute_volatility_stacked_nulls:
  assumes "symbol_columns column (mx_columns prices) = Inr cols" and "1 < length cols"
  shows "compute_volatility fill False prices windows column =
         Inr \<lparr>vf_index = mx_index prices,
              vf_columns = fold (\<lambda>w r. set_column w (map (\<lambda>d. None) (mx_index prices)) r)
                             windows []\<rparr>"
proof -
  have "vol_column fill False (mx_index prices) cols w = Inr (map (\<lambda>d. None) (mx_index prices))"
    for w
    by (simp add: vol_column_stacked[OF assms(2), of fill False "mx_index prices" w])
  then have "vol_loop fill False (mx_index prices) cols windows [] =
      Inr (fold (\<lambda>w r. set_column w (map (\<lambda>d. None) (mx_index prices)) r) windows [])"
    by (rule vol_loop_values)
  then show ?thesis using assms(1) by (simp add: compute_volatility_def)
qed

text \<open>
  Claim C7 (rolling volatility, per symbol). What \<^verbatim>\<open>compute_volatility\<close> does, for
  every price matrix, every list of windows and every window \<open>w\<close>.

  For a matrix of one symbol it returns a frame on the index of the matrix with one
  column per requested window, the volatility column of the prices of the symbol. That
  column is as long as the price column and its first \<open>w\<close> rows (not \<open>w - 1\<close>) are
  null: the first return is missing, so the first full window of \<open>w\<close> returns ends at
  row \<open>w\<close>. For \<open>w\<close> of at least 2 and prices all present and not zero, every later row
  \<open>t\<close> holds the sample standard deviation of the \<open>w\<close> single-period returns of the
  rows \<open>t - w + 1, ..., t\<close>, multiplied by the square root of 252 (in exact arithmetic).

  For a matrix of two or more symbols, with at least one row and one window, no symbol
  gets a volatility: the stacked series is assigned to a frame indexed by date, and
  the assignment raises \<^verbatim>\<open>TypeError\<close>, or, where pandas does not raise, leaves every
  row of every column null.
\<close>

theorem compute_volatility_window:
  "(symbol_columns column (mx_columns prices) = Inr [(s, ps)] \<longrightarrow>
      (\<exists>cs. compute_volatility fill strict prices windows column =
               Inr \<lparr>vf_index = mx_index prices, vf_columns = cs\<rparr> \<and>
             fst ` set cs = set windows \<and>
             (\<forall>w\<in>set windows. map_of cs w = Some (volatility fill w ps)))) \<and>
   length (volatility fill w ps) = length ps \<and>
   (\<forall>t<length ps. t < w \<longrightarrow> volatility fill w ps ! t = None) \<and>
   (2 \<le> w \<and> 0 \<notin> set xs \<longrightarrow>
      (\<forall>t<length xs. w \<le> t \<longrightarrow>
         volatility fill w (map Some xs) ! t =
         Some (sample_std (returns_between xs (Suc t - w) (Suc t)) * sqrt 252))) \<and>
   (symbol_columns column (mx_columns prices) = Inr cols \<and> 1 < length cols \<and>
    mx_index prices \<noteq> [] \<and> windows \<noteq> [] \<longrightarrow>
      compute_volatility fill True prices windows column = Inl TypeError \<and>
      (\<exists>cs. compute_volatility fill False prices windows column =
               Inr \<lparr>vf_index = mx_index prices, vf_columns = cs\<rparr> \<and>
             fst ` set cs = set windows \<and>
             (\<forall>w\<in>set windows. map_of cs w = Some (map (\<lambda>d. None) (mx_index prices)))))"
proof (intro conjI impI)
  assume a: "symbol_columns column (mx_columns prices) = Inr [(s, ps)]"
  let ?cs = "fold (\<lambda>w r. set_column w (volatility fill w ps) r) windows []"
  have "compute_volatility fill strict prices windows column =
          Inr \<lparr>vf_index = mx_index prices, vf_columns = ?cs\<rparr>"
    by (rule compute_volatility_single[OF a])
  moreover have "fst ` set ?cs = set windows"
    by (simp add: fold_set_column_keys)
  moreover have "\<forall>w\<in>set windows. map_of ?cs w = Some (volatility fill w ps)"
    by (simp add: fold_set_column_map_of)
  ultimately show "\<exists>cs. compute_volatility fill strict prices windows column =
               Inr \<lparr>vf_index = mx_index prices, vf_columns = cs\<rparr> \<and>
             fst ` set cs = set windows \<and>
             (\<forall>w\<in>set windows. map_of cs w = Some (volatility fill w ps))"
    by blast
next
  show "length (volatility fill w ps) = length ps" by (rule volatility_length)
next
  show "\<forall>t<length ps. t < w \<longrightarrow> volatility fill w ps ! t = None"
    using volatility_early by blast
next
  assume "2 \<le> w \<and> 0 \<notin> set xs"
  then show "\<forall>t<length xs. w \<le> t \<longrightarrow>
         volatility fill w (map Some xs) ! t =
         Some (sample_std (returns_between xs (Suc t - w) (Suc t)) * sqrt 252)"
    using volatility_full by blast
next
  assume a: "symbol_columns column (mx_columns prices) = Inr cols \<and> 1 < length cols \<and>
    mx_index prices \<noteq> [] \<and> windows \<noteq> []"
  then show "compute_volatility fill True prices windows column = Inl TypeError"
    using compute_volatility_stacked_strict by blast
next
  assume a: "symbol_columns column (mx_columns prices) = Inr cols \<and> 1 < length cols \<and>
    mx_index prices \<noteq> [] \<and> windows \<noteq> []"
  let ?cs = "fold (\<lambda>w r. set_column w (map (\<lambda>d. None) (mx_index prices)) r) windows []"
  have "compute_volatility fill False prices windows column =
          Inr \<lparr>vf_index = mx_index prices, vf_columns = ?cs\<rparr>"
    using a compute_volatility_stacked_nulls by blast
  moreover have "fst ` set ?cs = set windows"
    by (simp add: fold_set_column_keys)
  moreover have "\<forall>w\<in>set windows. map_of ?cs w = Some (map (\<lambda>d. None) (mx_index prices))"
    by (simp add: fold_set_column_map_of)
  ultimately show "\<exists>cs. compute_volatility fill False prices windows column =
               Inr \<lparr>vf_index = mx_index prices, vf_columns = cs\<rparr> \<and>
             fst ` set cs = set windows \<and>
             (\<forall>w\<in>set windows. map_of cs w = Some (map (\<lambda>d. None) (mx_index prices)))"
    by blast
qed

text \<open>
  Claim C7 fails on the matrix of two symbols with the closes 100, 110, 121 and
  50, 55, 66 on three days, for the window 2. Each symbol alone has a volatility on
  the third day; on the matrix of both the code raises \<^verbatim>\<open>TypeError\<close>, and where
  pandas does not raise, the column of the window is null on all three days. On the
  matrix of one symbol the second row is null as well, although only the first
  \<open>w - 1 = 1\<close> row should be; and for the window 1 every row is null, since one
  return has no sample standard deviation.
\<close>

theorem compute_volatility_counterexample:
  "compute_volatility True True two_symbols [2] ''close'' = Inl TypeError \<and>
   compute_volatility False True two_symbols [2] ''close'' = Inl TypeError \<and>
   compute_volatility True False two_symbols [2] ''close'' =
     Inr \<lparr>vf_index = three_days, vf_columns = [(2, [None, None, None])]\<rparr> \<and>
   compute_volatility False False two_symbols [2] ''close'' =
     Inr \<lparr>vf_index = three_days, vf_columns = [(2, [None, None, None])]\<rparr> \<and>
   volatility True 2 three_closes ! 2 =
     Some (sample_std (returns_between [100, 110, 121] 1 3) * sqrt 252) \<and>
   volatility True 2 [Some 50, Some 55, Some 66] ! 2 =
     Some (sample_std (returns_between [50, 55, 66] 1 3) * sqrt 252) \<and>
   volatility True 2 three_closes ! 1 = None \<and> volatility False 2 three_closes ! 1 = None \<and>
   volatility True 1 three_closes = [None, None, None] \<and>
   volatility False 1 three_closes = [None, None, None]"
proof -
  have sc: "symbol_columns ''close'' (mx_columns two_symbols) =
      Inr [(''AAA'', three_closes), (''BBB'', [Some 50, Some 55, Some 66])]"
    by (simp add: two_symbols_def symbol_columns_def)
  have ln: "1 < length [(''AAA'', three_closes), (''BBB'', [Some 50, Some 55, Some 66])]"
    by simp
  have ix: "mx_index two_symbols = three_days" by (simp add: two_symbols_def)
  have ne: "mx_index two_symbols \<noteq> []" by (simp add: ix three_days_def)
  have s: "compute_volatility fill True two_symbols [2] ''close'' = Inl TypeError" for fill
    by (rule compute_volatility_stacked_strict[OF sc ln ne]) simp
  have n: "compute_volatility fill False two_symbols [2] ''close'' =
      Inr \<lparr>vf_index = three_days, vf_columns = [(2, [None, None, None])]\<rparr>" for fill
    unfolding compute_volatility_stacked_nulls[OF sc ln] ix by (simp add: three_days_def)
  have f1: "volatility True 2 (map Some [100, 110, 121]) ! 2 =
      Some (sample_std (returns_between [100, 110, 121] (Suc 2 - 2) (Suc 2)) * sqrt 252)"
    by (rule volatility_full) simp_all
  have f2: "volatility True 2 (map Some [50, 55, 66]) ! 2 =
      Some (sample_std (returns_between [50, 55, 66] (Suc 2 - 2) (Suc 2)) * sqrt 252)"
    by (rule volatility_full) simp_all
  have t: "(1::nat) < length three_closes" by (simp add: three_closes_def)
  have a: "volatility fill 2 three_closes ! 1 = None" for fill
    by (rule volatility_early[OF t]) simp
  have r: "pct_change fill three_closes = [None, Some (110 / 100 - 1), Some (121 / 110 - 1)]" for fill
    by (simp add: pct_change_def three_closes_def ratio_def)
  have b: "volatility fill 1 three_closes = [None, None, None]" for fill
    unfolding volatility_def r
    by (simp add: rolling_std_def window_def upt_conv_Cons del: upt_Suc)
  have g1: "volatility True 2 three_closes ! 2 =
     Some (sample_std (returns_between [100, 110, 121] 1 3) * sqrt 252)"
    using f1 by (simp add: three_closes_def numeral_3_eq_3)
  have g2: "volatility True 2 [Some 50, Some 55, Some 66] ! 2 =
     Some (sample_std (returns_between [50, 55, 66] 1 3) * sqrt 252)"
    using f2 by (simp add: numeral_3_eq_3)
  show ?thesis using s n g1 g2 a b by (intro conjI)
qed

theorem compute_volatility_window_witness:
  "symbol_columns ''close'' (mx_columns one_symbol_fields) = Inr [(''AAA'', three_closes)] \<and>
   (\<exists>cs. compute_volatility True True one_symbol_fields [2] ''close'' =
            Inr \<lparr>vf_index = three_days, vf_columns = cs\<rparr> \<and>
          map_of cs 2 = Some (volatility True 2 three_closes)) \<and>
   length (volatility True 2 three_closes) = 3 \<and>
   volatility True 2 three_closes ! 0 = None \<and>
   volatility True 2 three_closes ! 1 = None \<and>
   volatility True 2 three_closes ! 2 =
     Some (sample_std (returns_between [100, 110, 121] 1 3) * sqrt 252) \<and>
   symbol_columns ''close'' (mx_columns two_symbols) =
     Inr [(''AAA'', three_closes), (''BBB'', [Some 50, Some 55, Some 66])] \<and>
   compute_volatility True True two_symbols [2] ''close'' = Inl TypeError \<and>
   (\<exists>cs. compute_volatility True False two_symbols [2] ''close'' =
            Inr \<lparr>vf_index = three_days, vf_columns = cs\<rparr> \<and>
          map_of cs 2 = Some [None, None, None])"
proof -
  note t = compute_volatility_window[of "''close''" one_symbol_fields "''AAA''" three_closes
      True True "[2]" 2 "[100, 110, 121]" "[]"]
  note u = compute_volatility_window[of "''close''" two_symbols "''AAA''" three_closes
      True True "[2]" 2 "[100, 110, 121]"
      "[(''AAA'', three_closes), (''BBB'', [Some 50, Some 55, Some 66])]"]
  have sc2: "symbol_columns ''close'' (mx_columns two_symbols) =
      Inr [(''AAA'', three_closes), (''BBB'', [Some 50, Some 55, Some 66])]"
    by (simp add: two_symbols_def symbol_columns_def)
  have ix2: "mx_index two_symbols = three_days" by (simp add: two_symbols_def)
  have h2: "symbol_columns ''close'' (mx_columns two_symbols) =
      Inr [(''AAA'', three_closes), (''BBB'', [Some 50, Some 55, Some 66])] \<and>
    1 < length [(''AAA'', three_closes), (''BBB'', [Some 50, Some 55, Some 66])] \<and>
    mx_index two_symbols \<noteq> [] \<and> [2::nat] \<noteq> []"
    using sc2 by (simp add: ix2 three_days_def)
  have d0: "compute_volatility True True two_symbols [2] ''close'' = Inl TypeError \<and>
      (\<exists>cs. compute_volatility True False two_symbols [2] ''close'' =
               Inr \<lparr>vf_index = mx_index two_symbols, vf_columns = cs\<rparr> \<and>
             fst ` set cs = set [2] \<and>
             (\<forall>w\<in>set [2]. map_of cs w = Some (map (\<lambda>d. None) (mx_index two_symbols))))"
    using u h2 by blast
  have d1: "compute_volatility True True two_symbols [2] ''close'' = Inl TypeError"
    using d0 ..
  have d2: "\<exists>cs. compute_volatility True False two_symbols [2] ''close'' =
            Inr \<lparr>vf_index = three_days, vf_columns = cs\<rparr> \<and>
          map_of cs 2 = Some [None, None, None]"
    using d0[THEN conjunct2] unfolding ix2 by (auto simp: three_days_def)
  have sc: "symbol_columns ''close'' (mx_columns one_symbol_fields) = Inr [(''AAA'', three_closes)]"
    by (simp add: one_symbol_fields_def symbol_columns_def select_field_def)
  have ix: "mx_index one_symbol_fields = three_days" by (simp add: one_symbol_fields_def)
  have tc: "three_closes = map Some [100, 110, 121]" by (simp add: three_closes_def)
  have l: "length three_closes = 3" by (simp add: three_closes_def)
  have "\<exists>cs. compute_volatility True True one_symbol_fields [2] ''close'' =
               Inr \<lparr>vf_index = mx_index one_symbol_fields, vf_columns = cs\<rparr> \<and>
             fst ` set cs = set [2] \<and>
             (\<forall>w\<in>set [2]. map_of cs w = Some (volatility True w three_closes))"
    using t sc by blast
  then have c0: "\<exists>cs. compute_volatility True True one_symbol_fields [2] ''close'' =
            Inr \<lparr>vf_index = three_days, vf_columns = cs\<rparr> \<and>
          map_of cs 2 = Some (volatility True 2 three_closes)"
    unfolding ix by auto
  have c1: "length (volatility True 2 three_closes) = 3" using t l by simp
  have e: "\<forall>t<length three_closes. t < 2 \<longrightarrow> volatility True 2 three_closes ! t = None"
    using t by blast
  have c2: "volatility True 2 three_closes ! 0 = None" using e l by simp
  have c3: "volatility True 2 three_closes ! 1 = None" using e l by simp
  have h: "(2::nat) \<le> 2 \<and> (0::real) \<notin> set [100, 110, 121]" by simp
  have f: "\<forall>t<length [100, 110, 121::real]. 2 \<le> t \<longrightarrow>
         volatility True 2 (map Some [100, 110, 121]) ! t =
         Some (sample_std (returns_between [100, 110, 121] (Suc t - 2) (Suc t)) * sqrt 252)"
    using t h by blast
  have c4: "volatility True 2 three_closes ! 2 =
     Some (sample_std (returns_between [100, 110, 121] 1 3) * sqrt 252)"
    using f[rule_format, of 2] unfolding tc by (simp add: numeral_3_eq_3)
  show ?thesis using sc c0 c1 c2 c3 c4 sc2 d1 d2 by (intro conjI)
qed

end
